theory Spec2Isabelle
  imports Complex_Main
begin

section \<open>JavaScript numbers\<close>

text \<open>
  The tracker and the analysis code compute on JavaScript numbers. Finite values are
  modelled as exact reals (rounding and the sign of zero are not modelled; a zero is
  the positive zero); the three non-finite values a division can produce are kept as
  constructors, so that \<open>x / 0\<close> is \<open>Infinity\<close>, \<open>-Infinity\<close> or \<open>NaN\<close> as in the
  source language and never an exception.

  So a statement below about values that the code computes by arithmetic is either an
  evaluation at an input whose numbers binary64 computes without rounding, or restricted
  to such inputs (\<open>pixel_box\<close> for \<open>iou\<close>), or it is relative to the results of the
  arithmetic: it states which tracks, events or table cells the comparisons on these
  results lead to, not the values themselves.
\<close>

datatype number = Fin real | PInf | NInf | NaN

fun is_finite :: "number \<Rightarrow> bool" where
  "is_finite (Fin r) = True"
| "is_finite PInf = False"
| "is_finite NInf = False"
| "is_finite NaN = False"

fun num_add :: "number \<Rightarrow> number \<Rightarrow> number" where
  "num_add NaN b = NaN"
| "num_add a NaN = NaN"
| "num_add (Fin a) (Fin b) = Fin (a + b)"
| "num_add (Fin a) PInf = PInf"
| "num_add (Fin a) NInf = NInf"
| "num_add PInf (Fin b) = PInf"
| "num_add NInf (Fin b) = NInf"
| "num_add PInf PInf = PInf"
| "num_add NInf NInf = NInf"
| "num_add PInf NInf = NaN"
| "num_add NInf PInf = NaN"

text \<open>An infinity times a finite value: the sign of the product, \<open>NaN\<close> for zero.\<close>

definition inf_times :: "bool \<Rightarrow> real \<Rightarrow> number" where
  "inf_times positive r =
     (if r = 0 then NaN else if (0 < r) = positive then PInf else NInf)"

fun num_mul :: "number \<Rightarrow> number \<Rightarrow> number" where
  "num_mul NaN b = NaN"
| "num_mul a NaN = NaN"
| "num_mul (Fin a) (Fin b) = Fin (a * b)"
| "num_mul (Fin a) PInf = inf_times True a"
| "num_mul (Fin a) NInf = inf_times False a"
| "num_mul PInf (Fin b) = inf_times True b"
| "num_mul NInf (Fin b) = inf_times False b"
| "num_mul PInf PInf = PInf"
| "num_mul NInf NInf = PInf"
| "num_mul PInf NInf = NInf"
| "num_mul NInf PInf = NInf"

fun num_div :: "number \<Rightarrow> number \<Rightarrow> number" where
  "num_div NaN b = NaN"
| "num_div a NaN = NaN"
| "num_div (Fin a) (Fin b) =
     (if b \<noteq> 0 then Fin (a / b)
      else if 0 < a then PInf else if a < 0 then NInf else NaN)"
| "num_div (Fin a) PInf = Fin 0"
| "num_div (Fin a) NInf = Fin 0"
| "num_div PInf (Fin b) = (if 0 \<le> b then PInf else NInf)"
| "num_div NInf (Fin b) = (if 0 \<le> b then NInf else PInf)"
| "num_div PInf PInf = NaN"
| "num_div NInf NInf = NaN"
| "num_div PInf NInf = NaN"
| "num_div NInf PInf = NaN"

text \<open>Comparisons: every comparison with \<open>NaN\<close> is false.\<close>

fun num_lt :: "number \<Rightarrow> number \<Rightarrow> bool" where
  "num_lt NaN b = False"
| "num_lt a NaN = False"
| "num_lt (Fin a) (Fin b) = (a < b)"
| "num_lt (Fin a) PInf = True"
| "num_lt (Fin a) NInf = False"
| "num_lt PInf b = False"
| "num_lt NInf (Fin b) = True"
| "num_lt NInf PInf = True"
| "num_lt NInf NInf = False"

definition num_gt :: "number \<Rightarrow> number \<Rightarrow> bool" where
  "num_gt a b = num_lt b a"

fun num_ge :: "number \<Rightarrow> number \<Rightarrow> bool" where
  "num_ge NaN b = False"
| "num_ge a NaN = False"
| "num_ge (Fin a) (Fin b) = (b \<le> a)"
| "num_ge (Fin a) PInf = False"
| "num_ge (Fin a) NInf = True"
| "num_ge PInf b = True"
| "num_ge NInf (Fin b) = False"
| "num_ge NInf PInf = False"
| "num_ge NInf NInf = True"

text \<open>\<open>Math.max\<close>, \<open>Math.min\<close> and \<open>Math.floor\<close>: \<open>NaN\<close> is contagious.\<close>

fun num_max :: "number \<Rightarrow> number \<Rightarrow> number" where
  "num_max NaN b = NaN"
| "num_max a NaN = NaN"
| "num_max a b = (if num_lt a b then b else a)"

fun num_min :: "number \<Rightarrow> number \<Rightarrow> number" where
  "num_min NaN b = NaN"
| "num_min a NaN = NaN"
| "num_min a b = (if num_lt b a then b else a)"

fun num_floor :: "number \<Rightarrow> number" where
  "num_floor (Fin r) = Fin (of_int \<lfloor>r\<rfloor>)"
| "num_floor a = a"

text \<open>Truthiness of an optional number: \<open>undefined\<close>, \<open>0\<close> and \<open>NaN\<close> are falsy.\<close>

fun truthy :: "number option \<Rightarrow> bool" where
  "truthy None = False"
| "truthy (Some (Fin r)) = (r \<noteq> 0)"
| "truthy (Some NaN) = False"
| "truthy (Some a) = True"

text \<open>\<open>v || d\<close> on an optional number.\<close>

definition or_else :: "number option \<Rightarrow> number \<Rightarrow> number" where
  "or_else v d = (if truthy v then the v else d)"

section \<open>ByteTracker (src/lib/supabase.ts)\<close>

datatype track_state = tentative | confirmed | deleted

type_synonym bbox_t = "real \<times> real \<times> real \<times> real"

text \<open>
  The interface \<open>Track\<close>. The fields \<open>id\<close> and \<open>class\<close> are named \<open>id_t\<close> and
  \<open>class_t\<close>. Box coordinates and confidences are finite numbers; the counters are
  natural numbers, as every track of the tracker starts at \<open>age = 1\<close>, \<open>hits = 1\<close>,
  \<open>time_since_update = 0\<close> and is only incremented. Detections have the same
  type in the source (\<open>update(detections: Track[])\<close>); the tracker never reads their
  counters, track id or state. Tracks are values: the tracker's list changes only in
  \<open>update\<close> (a caller that mutates a returned track object is not modelled).
\<close>

record Track =
  id_t :: int
  class_t :: string
  bbox :: bbox_t
  confidence :: real
  track_id :: nat
  age :: nat
  hits :: nat
  time_since_update :: nat
  state :: track_state

text \<open>\<open>TrackOptions\<close> as the caller passes it, every field optional.\<close>

record TrackOptions =
  track_thresh_opt :: "real option"
  track_buffer_opt :: "real option"
  match_thresh_opt :: "real option"
  min_box_area_opt :: "real option"
  mot20_opt :: "bool option"

text \<open>\<open>Required<TrackOptions>\<close>, the options the tracker stores.\<close>

record Options =
  track_thresh :: real
  track_buffer :: real
  match_thresh :: real
  min_box_area :: real
  mot20 :: bool

record ByteTracker =
  tracks :: "Track list"
  track_id_count :: nat
  options :: Options

text \<open>\<open>options.f || d\<close>: an absent field and the value \<open>0\<close> both give the default.\<close>

definition or_default :: "real option \<Rightarrow> real \<Rightarrow> real" where
  "or_default v d = (case v of None \<Rightarrow> d | Some r \<Rightarrow> if r = 0 then d else r)"

definition ByteTracker_new :: "TrackOptions \<Rightarrow> ByteTracker" where
  "ByteTracker_new opts =
     \<lparr>tracks = [], track_id_count = 0,
      options = \<lparr>track_thresh = or_default (track_thresh_opt opts) 0.5,
                 track_buffer = or_default (track_buffer_opt opts) 30,
                 match_thresh = or_default (match_thresh_opt opts) 0.8,
                 min_box_area = or_default (min_box_area_opt opts) 10,
                 mot20 = (case mot20_opt opts of None \<Rightarrow> False | Some b \<Rightarrow> b)\<rparr>\<rparr>"

definition iou :: "bbox_t \<Rightarrow> bbox_t \<Rightarrow> number" where
  "iou box1 box2 =
     (case box1 of (x1, y1, w1, h1) \<Rightarrow> case box2 of (x2, y2, w2, h2) \<Rightarrow>
        let box1_x1 = x1; box1_y1 = y1; box1_x2 = x1 + w1; box1_y2 = y1 + h1;
            box2_x1 = x2; box2_y1 = y2; box2_x2 = x2 + w2; box2_y2 = y2 + h2;
            x_left = max box1_x1 box2_x1;
            y_top = max box1_y1 box2_y1;
            x_right = min box1_x2 box2_x2;
            y_bottom = min box1_y2 box2_y2
        in if x_right < x_left \<or> y_bottom < y_top then Fin 0
           else
             let intersection_area = (x_right - x_left) * (y_bottom - y_top);
                 box1_area = (box1_x2 - box1_x1) * (box1_y2 - box1_y1);
                 box2_area = (box2_x2 - box2_x1) * (box2_y2 - box2_y1)
             in num_div (Fin intersection_area)
                        (Fin (box1_area + box2_area - intersection_area)))"

record MatchResult =
  matches :: "(nat \<times> nat) list"
  unmatchedDetections :: "nat list"
  unmatchedTracks :: "nat list"

text \<open>
  The inner loop of the greedy matching, one iteration: \<open>bestTrackIdx\<close> is \<open>None\<close>
  for the source's \<open>-1\<close>.
\<close>

definition best_step ::
  "number list \<Rightarrow> nat set \<Rightarrow> nat \<Rightarrow> nat option \<times> number \<Rightarrow> nat option \<times> number" where
  "best_step row matchedTracks t acc =
     (case acc of (bestTrackIdx, bestIou) \<Rightarrow>
        if t \<in> matchedTracks then acc
        else let iou_dt = row ! t
             in if num_ge iou_dt bestIou then (Some t, iou_dt) else acc)"

definition find_best :: "real \<Rightarrow> number list \<Rightarrow> nat set \<Rightarrow> nat \<Rightarrow> nat option" where
  "find_best thresh row matchedTracks n =
     fst (fold (best_step row matchedTracks) [0..<n] (None, Fin thresh))"

text \<open>The outer loop, one detection.\<close>

definition match_step ::
  "real \<Rightarrow> number list list \<Rightarrow> nat \<Rightarrow> nat \<Rightarrow>
   (nat \<times> nat) list \<times> nat set \<times> nat set \<Rightarrow> (nat \<times> nat) list \<times> nat set \<times> nat set" where
  "match_step thresh iouMatrix n d acc =
     (case acc of (ms, matchedDetections, matchedTracks) \<Rightarrow>
        case find_best thresh (iouMatrix ! d) matchedTracks n of
          None \<Rightarrow> acc
        | Some bestTrackIdx \<Rightarrow>
            (ms @ [(d, bestTrackIdx)], insert d matchedDetections,
             insert bestTrackIdx matchedTracks))"

definition matchDetectionsToTracks :: "Options \<Rightarrow> Track list \<Rightarrow> Track list \<Rightarrow> MatchResult" where
  "matchDetectionsToTracks opts trks detections =
     (if trks = [] then
        \<lparr>matches = [], unmatchedDetections = [0..<length detections], unmatchedTracks = []\<rparr>
      else if detections = [] then
        \<lparr>matches = [], unmatchedDetections = [], unmatchedTracks = [0..<length trks]\<rparr>
      else
        let iouMatrix = map (\<lambda>d. map (\<lambda>t. iou (bbox d) (bbox t)) trks) detections;
            res = fold (match_step (match_thresh opts) iouMatrix (length trks))
                       [0..<length detections] ([], {}, {})
        in case res of (ms, matchedDetections, matchedTracks) \<Rightarrow>
             \<lparr>matches = ms,
              unmatchedDetections = filter (\<lambda>d. d \<notin> matchedDetections) [0..<length detections],
              unmatchedTracks = filter (\<lambda>t. t \<notin> matchedTracks) [0..<length trks]\<rparr>)"

text \<open>Step 1 of \<open>update\<close>, one track: age it, and mark it deleted past the buffer.\<close>

definition age_track :: "Options \<Rightarrow> Track \<Rightarrow> Track" where
  "age_track opts track =
     (let track1 = track\<lparr>time_since_update := time_since_update track + 1\<rparr>
      in if real (time_since_update track1) > track_buffer opts
         then track1\<lparr>state := deleted\<rparr> else track1)"

text \<open>Step 3, one match: the track takes the detection's data and may be confirmed.\<close>

definition update_matched :: "Track list \<Rightarrow> nat \<times> nat \<Rightarrow> Track list \<Rightarrow> Track list" where
  "update_matched detections m trks =
     (case m of (detectionIdx, trackIdx) \<Rightarrow>
        let detection = detections ! detectionIdx;
            track = trks ! trackIdx;
            track1 = track\<lparr>bbox := bbox detection, confidence := confidence detection,
                           class_t := class_t detection, time_since_update := 0,
                           hits := hits track + 1, age := age track + 1\<rparr>;
            track2 = (if hits track1 \<ge> 3 then track1\<lparr>state := confirmed\<rparr> else track1)
        in trks[trackIdx := track2])"

text \<open>Step 4, one unmatched detection: a new track when the confidence allows it.\<close>

definition new_track :: "Track \<Rightarrow> nat \<Rightarrow> Track" where
  "new_track detection n =
     detection\<lparr>track_id := n, age := 1, hits := 1, time_since_update := 0,
               state := tentative\<rparr>"

definition create_track ::
  "Options \<Rightarrow> Track list \<Rightarrow> nat \<Rightarrow> Track list \<times> nat \<Rightarrow> Track list \<times> nat" where
  "create_track opts detections idx acc =
     (case acc of (trks, cnt) \<Rightarrow>
        let detection = detections ! idx
        in if confidence detection \<ge> track_thresh opts
           then (trks @ [new_track detection (cnt + 1)], cnt + 1)
           else acc)"

text \<open>The tracks after steps 1 to 3 of \<open>update\<close>, before creation and purge.\<close>

definition matched_tracks :: "ByteTracker \<Rightarrow> Track list \<Rightarrow> Track list" where
  "matched_tracks bt detections =
     (let trks1 = map (age_track (options bt)) (tracks bt);
          matchResults = matchDetectionsToTracks (options bt) trks1 detections
      in fold (update_matched detections) (matches matchResults) trks1)"

definition update :: "ByteTracker \<Rightarrow> Track list \<Rightarrow> ByteTracker \<times> Track list" where
  "update bt detections =
     (let opts = options bt;
          trks1 = map (age_track opts) (tracks bt);
          matchResults = matchDetectionsToTracks opts trks1 detections;
          trks3 = fold (update_matched detections) (matches matchResults) trks1;
          created = fold (create_track opts detections) (unmatchedDetections matchResults)
                         (trks3, track_id_count bt);
          trks5 = filter (\<lambda>track. state track \<noteq> deleted) (fst created);
          activeTracks = filter (\<lambda>track. state track = confirmed \<or> state track = tentative) trks5
      in (bt\<lparr>tracks := trks5, track_id_count := snd created\<rparr>, activeTracks))"

text \<open>A sequence of \<open>update\<close> calls on one tracker, one detection list per frame.\<close>

fun run :: "ByteTracker \<Rightarrow> Track list list \<Rightarrow> ByteTracker" where
  "run bt [] = bt"
| "run bt (detections # rest) = run (fst (update bt detections)) rest"

subsection \<open>Auxiliary notions for the tracker's properties\<close>

text \<open>Every track id in the live set has been allocated: it is at most the counter.\<close>

definition ids_bounded :: "ByteTracker \<Rightarrow> bool" where
  "ids_bounded bt = (\<forall>t \<in> set (tracks bt). track_id t \<le> track_id_count bt)"

text \<open>
  The track ids that the matching of one \<open>update\<close> call assigns a detection to; the
  matching runs on the aged tracks, whose indices are those of the stored list.
\<close>

definition matched_ids :: "ByteTracker \<Rightarrow> Track list \<Rightarrow> nat list" where
  "matched_ids bt detections =
     map (\<lambda>(d, t). track_id (tracks bt ! t))
       (matches (matchDetectionsToTracks (options bt)
                   (map (age_track (options bt)) (tracks bt)) detections))"

text \<open>No call of the sequence matches a detection to the track with id \<open>k\<close>.\<close>

fun never_matched :: "nat \<Rightarrow> ByteTracker \<Rightarrow> Track list list \<Rightarrow> bool" where
  "never_matched k bt [] = True"
| "never_matched k bt (detections # rest) =
     (k \<notin> set (matched_ids bt detections) \<and> never_matched k (fst (update bt detections)) rest)"

text \<open>No two tracks of the live set share a track id.\<close>

definition ids_distinct :: "ByteTracker \<Rightarrow> bool" where
  "ids_distinct bt = distinct (map track_id (tracks bt))"

text \<open>
  Boxes on which the real arithmetic of \<open>iou\<close> is the arithmetic of the code. The
  code computes in binary64. When the four numbers of a box are integers of magnitude at
  most \<open>2^25\<close>, every corner \<open>x + w\<close> is an integer of magnitude at most \<open>2^26\<close>;
  where the division is reached, each side of the intersection is at most a side of
  either box, so the three areas are integers up to \<open>2^50\<close> and the union is an integer
  up to \<open>2^51\<close>. Binary64 represents every integer up to \<open>2^53\<close>, so no step before
  the division rounds, and the division returns a quotient that is representable (such as
  0, 1/2 and 1) exactly.
\<close>

definition is_integer :: "real \<Rightarrow> bool" where
  "is_integer v = (v = of_int \<lfloor>v\<rfloor>)"

definition pixel_box :: "bbox_t \<Rightarrow> bool" where
  "pixel_box b =
     (case b of (x, y, w, h) \<Rightarrow>
        is_integer x \<and> is_integer y \<and> is_integer w \<and> is_integer h
        \<and> \<bar>x\<bar> \<le> 2 ^ 25 \<and> \<bar>y\<bar> \<le> 2 ^ 25 \<and> \<bar>w\<bar> \<le> 2 ^ 25 \<and> \<bar>h\<bar> \<le> 2 ^ 25)"

subsection \<open>Example inputs for the tracker\<close>

definition ball_detection :: Track where
  "ball_detection =
     \<lparr>id_t = 0, class_t = ''ball'', bbox = (0, 0, 10, 10), confidence = 0.9,
      track_id = 0, age = 0, hits = 0, time_since_update = 0, state = tentative\<rparr>"

text \<open>A detection whose box has negative width and height.\<close>

definition inverted_detection :: Track where
  "inverted_detection =
     \<lparr>id_t = 0, class_t = ''ball'', bbox = (0, 0, - 5, - 5), confidence = 0.9,
      track_id = 0, age = 0, hits = 0, time_since_update = 0, state = tentative\<rparr>"

definition faint_detection :: Track where
  "faint_detection = inverted_detection\<lparr>bbox := (50, 50, 10, 10), confidence := 0.3\<rparr>"

text \<open>The ball 100 pixels to the right.\<close>

definition far_detection :: Track where
  "far_detection = ball_detection\<lparr>bbox := (100, 0, 10, 10)\<rparr>"

definition frame_ball :: "Track list" where
  "frame_ball = [ball_detection]"

definition frame_empty :: "Track list" where
  "frame_empty = []"

definition frame_mixed :: "Track list" where
  "frame_mixed = [ball_detection, inverted_detection, faint_detection]"

definition default_options :: TrackOptions where
  "default_options =
     \<lparr>track_thresh_opt = None, track_buffer_opt = None, match_thresh_opt = None,
      min_box_area_opt = None, mot20_opt = None\<rparr>"

text \<open>\<open>new ByteTracker({track_buffer: 1})\<close>.\<close>

definition short_buffer :: TrackOptions where
  "short_buffer = default_options\<lparr>track_buffer_opt := Some 1\<rparr>"

text \<open>The tracker after one frame with the ball, under the default options.\<close>

definition ball_tracked :: ByteTracker where
  "ball_tracked =
     \<lparr>tracks = [ball_detection\<lparr>track_id := 1, age := 1, hits := 1\<rparr>],
      track_id_count = 1,
      options = \<lparr>track_thresh = 0.5, track_buffer = 30, match_thresh = 0.8,
                 min_box_area = 10, mot20 = False\<rparr>\<rparr>"

text \<open>
  The tracker with the one-frame buffer after three frames with the ball and one
  frame without: the ball's track is confirmed and has missed one frame.
\<close>

definition ball_missed_once :: ByteTracker where
  "ball_missed_once =
     \<lparr>tracks = [ball_detection\<lparr>track_id := 1, age := 3, hits := 3,
                                 time_since_update := 1, state := confirmed\<rparr>],
      track_id_count = 1,
      options = \<lparr>track_thresh = 0.5, track_buffer = 1, match_thresh = 0.8,
                 min_box_area = 10, mot20 = False\<rparr>\<rparr>"

section \<open>Tennis tracker (src/lib/supabase.ts): frames, kinematics and shot detection\<close>

text \<open>
  The object of a tracked player or ball (\<open>TrackingFrame['player']\<close>,
  \<open>TrackingFrame['ball']\<close>); the fields \<open>x\<close>, \<open>y\<close>, \<open>width\<close>, \<open>height\<close> and
  \<open>confidence\<close> carry the prefix \<open>obj_\<close>.
\<close>

record ObjectBox =
  obj_x :: real
  obj_y :: real
  obj_width :: real
  obj_height :: real
  centerX :: real
  centerY :: real
  obj_confidence :: real

record CourtInfo =
  court_width :: real
  court_height :: real
  baselineY :: real
  netY :: real
  serviceLineY :: real

text \<open>
  \<open>TrackingFrame\<close>. An optional field is an \<open>option\<close>; the speeds and distances are
  results of divisions and square roots and are numbers in the sense above.
\<close>

record TrackingFrame =
  frameId :: nat
  timestamp :: real
  player :: "ObjectBox option"
  ball :: "ObjectBox option"
  courtInfo :: "CourtInfo option"
  distancePlayerToBall :: "number option"
  isShot :: "bool option"
  shotType :: "string option"
  playerSpeed :: "number option"
  ballSpeed :: "number option"
  playerDistanceCovered :: "number option"
  totalPlayerDistanceCovered :: "number option"

record BallTrajectoryPoint =
  point_x :: real
  point_y :: real
  point_timestamp :: real
  point_speed :: number
  point_confidence :: real

definition SHOT_DETECTION_DISTANCE_THRESHOLD :: real where
  "SHOT_DETECTION_DISTANCE_THRESHOLD = 100"

definition SHOT_DETECTION_SPEED_THRESHOLD :: real where
  "SHOT_DETECTION_SPEED_THRESHOLD = 15"

subsection \<open>Kinematics\<close>

definition calculateDistance :: "real \<Rightarrow> real \<Rightarrow> real \<Rightarrow> real \<Rightarrow> real \<Rightarrow> real" where
  "calculateDistance x1 y1 x2 y2 pixelsToMeters =
     (let distancePixels = sqrt ((x2 - x1)\<^sup>2 + (y2 - y1)\<^sup>2);
          distanceMeters = distancePixels * pixelsToMeters
      in distanceMeters)"

text \<open>Speed in km/h; the division by \<open>timeDiff\<close> is the division of numbers.\<close>

definition calculateSpeed :: "real \<Rightarrow> real \<Rightarrow> real \<Rightarrow> real \<Rightarrow> real \<Rightarrow> real \<Rightarrow> number" where
  "calculateSpeed x1 y1 x2 y2 timeDiff pixelsToMeters =
     (let distanceMeters = calculateDistance x1 y1 x2 y2 pixelsToMeters;
          speedMps = num_div (Fin distanceMeters) (Fin timeDiff);
          speedKmh = num_mul speedMps (Fin 3.6)
      in speedKmh)"

subsection \<open>Shot detection\<close>

text \<open>
  \<open>Math.atan2(y, x)\<close> on finite arguments, by quadrant; \<open>atan2(0, 0) = 0\<close> and
  \<open>atan2(0, x) = \<pi>\<close> for negative \<open>x\<close>, as for the positive zero.
\<close>

definition atan2 :: "real \<Rightarrow> real \<Rightarrow> real" where
  "atan2 y x =
     (if 0 < x then arctan (y / x)
      else if x < 0 then (if 0 \<le> y then arctan (y / x) + pi else arctan (y / x) - pi)
      else if 0 < y then pi / 2
      else if y < 0 then - pi / 2
      else 0)"

text \<open>\<open>trajectory.slice(-3)\<close>.\<close>

definition last3 :: "'a list \<Rightarrow> 'a list" where
  "last3 xs = drop (length xs - 3) xs"

definition hasChangedDirection :: "BallTrajectoryPoint list \<Rightarrow> bool" where
  "hasChangedDirection trajectory =
     (if length trajectory < 3 then False
      else case last3 trajectory of
        [point1, point2, point3] \<Rightarrow>
          let vector1_x = point_x point2 - point_x point1;
              vector1_y = point_y point2 - point_y point1;
              vector2_x = point_x point3 - point_x point2;
              vector2_y = point_y point3 - point_y point2;
              angle = atan2 (vector1_x * vector2_y - vector1_y * vector2_x)
                            (vector1_x * vector2_x + vector1_y * vector2_y)
          in \<bar>angle\<bar> > pi / 6
      | _ \<Rightarrow> False)"

definition isMovingAwayFromPlayer ::
  "ObjectBox option \<Rightarrow> ObjectBox option \<Rightarrow> ObjectBox option \<Rightarrow> bool" where
  "isMovingAwayFromPlayer pl currentBall previousBall =
     (case (pl, currentBall, previousBall) of
        (Some p, Some cb, Some pb) \<Rightarrow>
          let previousDistance =
                sqrt ((centerX p - centerX pb)\<^sup>2 + (centerY p - centerY pb)\<^sup>2);
              currentDistance =
                sqrt ((centerX p - centerX cb)\<^sup>2 + (centerY p - centerY cb)\<^sup>2)
          in currentDistance > previousDistance
      | _ \<Rightarrow> False)"

definition determineShotType :: "TrackingFrame \<Rightarrow> TrackingFrame \<Rightarrow> string" where
  "determineShotType previousFrame currentFrame =
     (case (player previousFrame, ball previousFrame, player currentFrame, ball currentFrame,
            courtInfo previousFrame) of
        (Some pl, Some bl, Some _, Some _, Some court) \<Rightarrow>
          let isNearNet = \<bar>centerY pl - netY court\<bar> < 100;
              isNearBaseline = \<bar>centerY pl - baselineY court\<bar> < 100;
              isBallAbovePlayer = centerY bl < centerY pl - obj_height pl;
              isBallOnRight = centerX bl > centerX pl
          in if isNearBaseline \<and> isBallAbovePlayer then ''serve''
             else if isNearNet then ''volley''
             else if isBallOnRight then ''forehand''
             else ''backhand''
      | _ \<Rightarrow> ''unknown'')"

text \<open>
  The object \<open>conditions\<close> of \<open>detectShot\<close>. The module-level array
  \<open>recentBallTrajectory\<close> is a parameter.
\<close>

record ShotConditions =
  proximity :: bool
  speedIncrease :: bool
  directionChange :: bool
  movingAway :: bool

definition shot_conditions ::
  "TrackingFrame \<Rightarrow> TrackingFrame \<Rightarrow> BallTrajectoryPoint list \<Rightarrow> ShotConditions" where
  "shot_conditions previousFrame currentFrame recentBallTrajectory =
     \<lparr>proximity = num_lt (or_else (distancePlayerToBall previousFrame) PInf)
                          (Fin SHOT_DETECTION_DISTANCE_THRESHOLD),
      speedIncrease = (case ballSpeed currentFrame of
                         None \<Rightarrow> False
                       | Some v \<Rightarrow> num_gt v (Fin SHOT_DETECTION_SPEED_THRESHOLD)),
      directionChange = hasChangedDirection recentBallTrajectory,
      movingAway = isMovingAwayFromPlayer (player currentFrame) (ball currentFrame)
                     (ball previousFrame)\<rparr>"

record ShotResult =
  result_isShot :: bool
  result_shotType :: "string option"

definition detectShot ::
  "TrackingFrame \<Rightarrow> TrackingFrame \<Rightarrow> BallTrajectoryPoint list \<Rightarrow> ShotResult" where
  "detectShot previousFrame currentFrame recentBallTrajectory =
     (if player previousFrame = None \<or> ball previousFrame = None
         \<or> player currentFrame = None \<or> ball currentFrame = None
      then \<lparr>result_isShot = False, result_shotType = None\<rparr>
      else
        let conditions = shot_conditions previousFrame currentFrame recentBallTrajectory;
            is_shot = (proximity conditions \<and> speedIncrease conditions)
                    \<or> (proximity conditions \<and> directionChange conditions)
                    \<or> (speedIncrease conditions \<and> movingAway conditions)
        in if \<not> is_shot then \<lparr>result_isShot = False, result_shotType = None\<rparr>
           else \<lparr>result_isShot = is_shot,
                 result_shotType = Some (determineShotType previousFrame currentFrame)\<rparr>)"

section \<open>MovementAnalyzer (src/lib/movement-analyzer.ts)\<close>

record Coordinates =
  coord_x :: real
  coord_y :: real
  coord_timestamp :: real

datatype event_type = sprint | stop | change_direction | steady

text \<open>A \<open>MovementEvent\<close> without its \<open>details\<close>, a formatted message.\<close>

record MovementEvent =
  event_kind :: event_type
  event_timestamp :: real

record MovementStats =
  distance :: real
  maxSpeed :: number
  avgSpeed :: number
  events :: "MovementEvent list"

definition SPRINT_THRESHOLD :: real where "SPRINT_THRESHOLD = 5"
definition STOP_THRESHOLD :: real where "STOP_THRESHOLD = 0.5"
definition DIRECTION_CHANGE_THRESHOLD :: real where "DIRECTION_CHANGE_THRESHOLD = 45"
definition PIXELS_PER_METER :: real where "PIXELS_PER_METER = 100"

text \<open>The quantities one iteration of the loop computes from \<open>prev\<close> and \<open>curr\<close> (here \<open>cur\<close>).\<close>

definition step_distance :: "Coordinates \<Rightarrow> Coordinates \<Rightarrow> real" where
  "step_distance prev cur =
     (let dx = (coord_x cur - coord_x prev) / PIXELS_PER_METER;
          dy = (coord_y cur - coord_y prev) / PIXELS_PER_METER
      in sqrt (dx * dx + dy * dy))"

definition step_speed :: "Coordinates \<Rightarrow> Coordinates \<Rightarrow> number" where
  "step_speed prev cur =
     (let timeDiff = (coord_timestamp cur - coord_timestamp prev) / 1000
      in num_div (Fin (step_distance prev cur)) (Fin timeDiff))"

definition step_direction :: "Coordinates \<Rightarrow> Coordinates \<Rightarrow> real" where
  "step_direction prev cur =
     (let dx = (coord_x cur - coord_x prev) / PIXELS_PER_METER;
          dy = (coord_y cur - coord_y prev) / PIXELS_PER_METER
      in atan2 dy dx * 180 / pi)"

text \<open>The chain of conditions that picks the event of an iteration.\<close>

definition detect_event :: "number \<Rightarrow> real \<Rightarrow> event_type" where
  "detect_event speed direction_change =
     (if num_gt speed (Fin SPRINT_THRESHOLD) then sprint
      else if num_lt speed (Fin STOP_THRESHOLD) then stop
      else if direction_change > DIRECTION_CHANGE_THRESHOLD then change_direction
      else steady)"

text \<open>The loop's variables: \<open>stats\<close>, \<open>totalSpeed\<close> and \<open>prevDirection\<close>.\<close>

record StatsLoop =
  loop_stats :: MovementStats
  totalSpeed :: number
  prevDirection :: real

definition stats_step :: "Coordinates \<Rightarrow> Coordinates \<Rightarrow> StatsLoop \<Rightarrow> StatsLoop" where
  "stats_step prev cur s =
     (let stats = loop_stats s;
          speed = step_speed prev cur;
          direction = step_direction prev cur;
          direction_change = \<bar>direction - prevDirection s\<bar>
      in \<lparr>loop_stats =
            stats\<lparr>distance := distance stats + step_distance prev cur,
                   maxSpeed := num_max (maxSpeed stats) speed,
                   events := events stats @
                     [\<lparr>event_kind = detect_event speed direction_change,
                       event_timestamp = coord_timestamp cur\<rparr>]\<rparr>,
          totalSpeed = num_add (totalSpeed s) speed,
          prevDirection = direction\<rparr>)"

fun stats_loop :: "Coordinates \<Rightarrow> Coordinates list \<Rightarrow> StatsLoop \<Rightarrow> StatsLoop" where
  "stats_loop prev [] s = s"
| "stats_loop prev (cur # rest) s = stats_loop cur rest (stats_step prev cur s)"

definition empty_stats :: MovementStats where
  "empty_stats = \<lparr>distance = 0, maxSpeed = Fin 0, avgSpeed = Fin 0, events = []\<rparr>"

definition calculateStats :: "Coordinates list \<Rightarrow> MovementStats" where
  "calculateStats coordinates =
     (case coordinates of
        first # second # rest \<Rightarrow>
          let s = stats_loop first (second # rest)
                    \<lparr>loop_stats = empty_stats, totalSpeed = Fin 0, prevDirection = 0\<rparr>
          in (loop_stats s)
               \<lparr>avgSpeed := num_div (totalSpeed s) (Fin (real (length coordinates) - 1))\<rparr>
      | _ \<Rightarrow> empty_stats)"

subsection \<open>Auxiliary notions for the movement statistics\<close>

text \<open>
  The events of the loop in closed form: one event for each consecutive pair, from the
  pair's speed and the change of direction against the direction before (\<open>d\<close>).
\<close>

fun pair_events :: "real \<Rightarrow> Coordinates \<Rightarrow> Coordinates list \<Rightarrow> MovementEvent list" where
  "pair_events d prev [] = []"
| "pair_events d prev (cur # rest) =
     \<lparr>event_kind = detect_event (step_speed prev cur) \<bar>step_direction prev cur - d\<bar>,
      event_timestamp = coord_timestamp cur\<rparr>
     # pair_events (step_direction prev cur) cur rest"

section \<open>Movement analysis endpoint (src/app/api/analyze-movement/route.ts)\<close>

text \<open>
  \<open>calculateMovement\<close>, the second movement classifier of the repository. Its
  \<open>Coordinates\<close> (src/types/tracking.ts) carry a box; the fields have the prefix
  \<open>rc_\<close>. Numbers are finite reals here: the loop divides only by a positive
  \<open>timeDiff\<close>.
\<close>

record RouteCoordinates =
  rc_x :: real
  rc_y :: real
  rc_width :: real
  rc_height :: real
  rc_timestamp :: real

datatype movement_type = start_ev | sprint_ev | stop_ev | change_direction_ev | steady_ev

record RouteEvent =
  ev_type :: movement_type
  ev_time :: real

text \<open>The variables of the loop, with the list \<open>movementData.events\<close>.\<close>

record MovementLoop =
  mv_totalDistance :: real
  mv_maxSpeed :: real
  mv_prevSpeed :: real
  mv_prevDirection :: string
  mv_lastEventTime :: real
  mv_events :: "RouteEvent list"

definition move_direction :: "real \<Rightarrow> real \<Rightarrow> string" where
  "move_direction dx dy =
     (if \<bar>dx\<bar> > \<bar>dy\<bar> then (if dx > 0 then ''right'' else ''left'')
      else if \<bar>dy\<bar> > 0 then (if dy > 0 then ''down'' else ''up'')
      else ''stationary'')"

text \<open>
  The chain of conditions that detects an event in iteration \<open>i\<close>; \<open>None\<close> when no
  branch is taken.
\<close>

definition detect_movement ::
  "nat \<Rightarrow> real \<Rightarrow> real \<Rightarrow> string \<Rightarrow> string \<Rightarrow> real \<Rightarrow> real \<Rightarrow> movement_type option" where
  "detect_movement i speed prev_speed direction prev_direction acceleration timeSinceLastEvent =
     (if speed > 50 \<and> prev_speed < 40 \<and> timeSinceLastEvent > 500 then Some sprint_ev
      else if speed < 5 \<and> prev_speed > 20 \<and> timeSinceLastEvent > 500 then Some stop_ev
      else if prev_direction \<noteq> [] \<and> direction \<noteq> prev_direction
              \<and> direction \<noteq> ''stationary'' \<and> timeSinceLastEvent > 500
           then Some change_direction_ev
      else if i mod 10 = 0 \<and> speed > 10 \<and> \<bar>acceleration\<bar> < 5 \<and> timeSinceLastEvent > 1000
           then Some steady_ev
      else None)"

definition movement_step ::
  "nat \<Rightarrow> RouteCoordinates \<Rightarrow> RouteCoordinates \<Rightarrow> MovementLoop \<Rightarrow> MovementLoop" where
  "movement_step i prev cur s =
     (let timeDiff = (rc_timestamp cur - rc_timestamp prev) / 1000 in
      if timeDiff \<le> 0 then s
      else
        let dx = (rc_x cur + rc_width cur / 2) - (rc_x prev + rc_width prev / 2);
            dy = (rc_y cur + rc_height cur / 2) - (rc_y prev + rc_height prev / 2);
            dist = sqrt (dx * dx + dy * dy);
            speed = dist / timeDiff;
            acceleration = (speed - mv_prevSpeed s) / timeDiff;
            direction = move_direction dx dy;
            timeSinceLastEvent = rc_timestamp cur - mv_lastEventTime s;
            detected = detect_movement i speed (mv_prevSpeed s) direction (mv_prevDirection s)
                         acceleration timeSinceLastEvent
        in \<lparr>mv_totalDistance = mv_totalDistance s + dist,
            mv_maxSpeed = (if speed > mv_maxSpeed s then speed else mv_maxSpeed s),
            mv_prevSpeed = speed,
            mv_prevDirection = direction,
            mv_lastEventTime = (case detected of None \<Rightarrow> mv_lastEventTime s
                                | Some ty \<Rightarrow> rc_timestamp cur),
            mv_events = (case detected of None \<Rightarrow> mv_events s
                         | Some ty \<Rightarrow> mv_events s @ [\<lparr>ev_type = ty, ev_time = rc_timestamp cur\<rparr>])\<rparr>)"

fun movement_loop ::
  "nat \<Rightarrow> RouteCoordinates \<Rightarrow> RouteCoordinates list \<Rightarrow> MovementLoop \<Rightarrow> MovementLoop" where
  "movement_loop i prev [] s = s"
| "movement_loop i prev (cur # rest) s = movement_loop (Suc i) cur rest (movement_step i prev cur s)"

text \<open>
  The result of \<open>calculateMovement\<close> with the fields that the loop determines; the
  fields \<open>direction\<close>, \<open>speed\<close> and \<open>acceleration\<close>, which the function computes from
  the last samples after the loop, are left out.
\<close>

record MovementData =
  md_maxSpeed :: real
  md_distance :: real
  md_events :: "RouteEvent list"

definition calculateMovement :: "RouteCoordinates list \<Rightarrow> MovementData" where
  "calculateMovement coordinates =
     (case coordinates of
        first # second # rest \<Rightarrow>
          let s = movement_loop 1 first (second # rest)
                    \<lparr>mv_totalDistance = 0, mv_maxSpeed = 0, mv_prevSpeed = 0,
                     mv_prevDirection = [], mv_lastEventTime = rc_timestamp first,
                     mv_events = [\<lparr>ev_type = start_ev, ev_time = rc_timestamp first\<rparr>]\<rparr>
          in \<lparr>md_maxSpeed = mv_maxSpeed s, md_distance = mv_totalDistance s,
              md_events = mv_events s\<rparr>
      | _ \<Rightarrow> \<lparr>md_maxSpeed = 0, md_distance = 0, md_events = []\<rparr>)"

text \<open>Consecutive events of a list are more than \<open>gap\<close> apart in time.\<close>

definition spaced :: "real \<Rightarrow> RouteEvent list \<Rightarrow> bool" where
  "spaced gap evs = (\<forall>k. Suc k < length evs \<longrightarrow> gap < ev_time (evs ! Suc k) - ev_time (evs ! k))"

text \<open>A sample with a box of 10 by 10 pixels.\<close>

definition route_point :: "real \<Rightarrow> real \<Rightarrow> real \<Rightarrow> RouteCoordinates" where
  "route_point px py t =
     \<lparr>rc_x = px, rc_y = py, rc_width = 10, rc_height = 10, rc_timestamp = t\<rparr>"

section \<open>Aggregation (src/lib/supabase.ts)\<close>

datatype js_error = TypeError

text \<open>
  Reading \<open>a[v]\<close> for a number \<open>v\<close> on an array of length \<open>n\<close>: only an integer
  from 0 to \<open>n - 1\<close> is an index of the array.
\<close>

definition array_index :: "number \<Rightarrow> nat \<Rightarrow> nat option" where
  "array_index v n =
     (case v of
        Fin r \<Rightarrow> if r = of_int \<lfloor>r\<rfloor> \<and> 0 \<le> r \<and> r < real n then Some (nat \<lfloor>r\<rfloor>) else None
      | _ \<Rightarrow> None)"

text \<open>\<open>Math.min(gridSize - 1, Math.floor((center / extent) * gridSize))\<close>.\<close>

definition grid_coordinate :: "nat \<Rightarrow> real \<Rightarrow> real \<Rightarrow> number" where
  "grid_coordinate gridSize center extent =
     num_min (Fin (real gridSize - 1))
       (num_floor (num_mul (num_div (Fin center) (Fin extent)) (Fin (real gridSize))))"

text \<open>
  One frame of \<open>generatePositionHeatmap\<close>. \<open>heatmap[gridY][gridX]++\<close> throws a
  TypeError when \<open>gridY\<close> is not a row index (the row is \<open>undefined\<close>); when only
  \<open>gridX\<close> is not an index it sets a property that is no cell of the row, and the
  cells stay as they are.
\<close>

definition heatmap_step ::
  "nat \<Rightarrow> TrackingFrame \<Rightarrow> js_error + nat list list \<Rightarrow> js_error + nat list list" where
  "heatmap_step gridSize frame acc =
     (case acc of
        Inl e \<Rightarrow> Inl e
      | Inr heatmap \<Rightarrow>
          (case player frame of
             None \<Rightarrow> Inr heatmap
           | Some pl \<Rightarrow>
               let extent = (case courtInfo frame of
                               None \<Rightarrow> (1, 1)
                             | Some court \<Rightarrow> (court_width court, court_height court));
                   gridX = grid_coordinate gridSize (centerX pl) (fst extent);
                   gridY = grid_coordinate gridSize (centerY pl) (snd extent)
               in case array_index gridY gridSize of
                    None \<Rightarrow> Inl TypeError
                  | Some row \<Rightarrow>
                      (case array_index gridX gridSize of
                         None \<Rightarrow> Inr heatmap
                       | Some col \<Rightarrow>
                           Inr (heatmap[row := (heatmap ! row)[col := heatmap ! row ! col + 1]]))))"

definition generatePositionHeatmap :: "TrackingFrame list \<Rightarrow> nat \<Rightarrow> js_error + nat list list" where
  "generatePositionHeatmap frames gridSize =
     fold (heatmap_step gridSize) frames (Inr (replicate gridSize (replicate gridSize 0)))"

text \<open>
  The two counters of \<open>calculateCourtCoverage\<close>, one cell. The coverage is
  \<open>(coveredCells / totalCells) * 100\<close>; the code rounds the quotient and the product
  (for 7 cells of 100 it returns \<open>7.000000000000001\<close>), the model does not. The
  coverage is evaluated below for 1 cell of 100 only, where the code returns \<open>1\<close>.
\<close>

definition count_cell :: "nat \<Rightarrow> nat \<times> nat \<Rightarrow> nat \<times> nat" where
  "count_cell cell acc =
     (case acc of (coveredCells, totalCells) \<Rightarrow>
        ((if cell > 0 then coveredCells + 1 else coveredCells), totalCells + 1))"

definition calculateCourtCoverage :: "TrackingFrame list \<Rightarrow> nat \<Rightarrow> js_error + number" where
  "calculateCourtCoverage frames gridSize =
     (case generatePositionHeatmap frames gridSize of
        Inl e \<Rightarrow> Inl e
      | Inr heatmap \<Rightarrow>
          (case fold (\<lambda>row acc. fold count_cell row acc) heatmap (0, 0) of
             (coveredCells, totalCells) \<Rightarrow>
               Inr (num_mul (num_div (Fin (real coveredCells)) (Fin (real totalCells)))
                            (Fin 100))))"

record PlayerStats =
  averageSpeed :: number
  player_maxSpeed :: number
  totalDistanceCovered :: number
  shotsHit :: nat
  forehandCount :: nat
  backhandCount :: nat
  serveCount :: nat
  volleyCount :: nat
  positionHeatmap :: "nat list list"

record ShotStats =
  averageBallSpeed :: number
  maxBallSpeed :: number
  shotTypes :: "string \<rightharpoonup> nat"

record VideoMetadata =
  duration :: real
  video_width :: real
  video_height :: real

text \<open>
  \<open>TennisAnalysisResult\<close> without its field \<open>frames\<close>, a projection of the input
  frames that no statistic reads.
\<close>

record TennisAnalysisResult =
  playerStats :: PlayerStats
  shotStats :: ShotStats
  courtCoverage :: number
  videoMetadata :: VideoMetadata

text \<open>The variables of the loop over the frames in \<open>generateAnalysisResult\<close>.\<close>

record Totals =
  totalPlayerSpeed :: number
  maxPlayerSpeed :: number
  shots :: nat
  forehands :: nat
  backhands :: nat
  serves :: nat
  volleys :: nat
  totalBallSpeed :: number
  maxBall :: number
  shot_types :: "string \<rightharpoonup> nat"

text \<open>
  A string is truthy when it is defined and not empty. The table \<open>shotTypes\<close> of the
  code is an object used as a dictionary; it is a finite map here, so shot types that
  name a property of \<open>Object.prototype\<close> (such as \<open>toString\<close>) are outside the model.
\<close>

definition truthy_string :: "string option \<Rightarrow> bool" where
  "truthy_string s = (case s of None \<Rightarrow> False | Some v \<Rightarrow> v \<noteq> [])"

definition count_shot_type :: "TrackingFrame \<Rightarrow> Totals \<Rightarrow> Totals" where
  "count_shot_type frame t =
     (if truthy_string (shotType frame) then
        let ty = the (shotType frame) in
        t\<lparr>shot_types := (shot_types t)(ty \<mapsto> (case shot_types t ty of
                                                   None \<Rightarrow> 0 | Some c \<Rightarrow> c) + 1),
          forehands := (if ty = ''forehand'' then forehands t + 1 else forehands t),
          backhands := (if ty = ''backhand'' then backhands t + 1 else backhands t),
          serves := (if ty = ''serve'' then serves t + 1 else serves t),
          volleys := (if ty = ''volley'' then volleys t + 1 else volleys t)\<rparr>
      else t)"

definition count_ball_speed :: "TrackingFrame \<Rightarrow> Totals \<Rightarrow> Totals" where
  "count_ball_speed frame t =
     (if truthy (ballSpeed frame) then
        t\<lparr>totalBallSpeed := num_add (totalBallSpeed t) (the (ballSpeed frame)),
          maxBall := num_max (maxBall t) (the (ballSpeed frame))\<rparr>
      else t)"

definition totals_step :: "TrackingFrame \<Rightarrow> Totals \<Rightarrow> Totals" where
  "totals_step frame t =
     (let t1 = (if truthy (playerSpeed frame) then
                  t\<lparr>totalPlayerSpeed := num_add (totalPlayerSpeed t) (the (playerSpeed frame)),
                    maxPlayerSpeed := num_max (maxPlayerSpeed t) (the (playerSpeed frame))\<rparr>
                else t)
      in if isShot frame = Some True then
           count_ball_speed frame (count_shot_type frame (t1\<lparr>shots := shots t1 + 1\<rparr>))
         else t1)"

definition no_totals :: Totals where
  "no_totals =
     \<lparr>totalPlayerSpeed = Fin 0, maxPlayerSpeed = Fin 0, shots = 0, forehands = 0,
      backhands = 0, serves = 0, volleys = 0, totalBallSpeed = Fin 0, maxBall = Fin 0,
      shot_types = Map.empty\<rparr>"

definition generateAnalysisResult ::
  "TrackingFrame list \<Rightarrow> VideoMetadata \<Rightarrow> real \<Rightarrow> js_error + TennisAnalysisResult" where
  "generateAnalysisResult frames metadata pixelsToMeters =
     (let t = fold totals_step frames no_totals;
          averagePlayerSpeed =
            (if shots t > 0 then num_div (totalPlayerSpeed t) (Fin (real (length frames)))
             else Fin 0);
          averageBall =
            (if shots t > 0 then num_div (totalBallSpeed t) (Fin (real (shots t))) else Fin 0);
          totalDistance =
            (if frames = [] then Fin 0
             else or_else (totalPlayerDistanceCovered (last frames)) (Fin 0))
      in case generatePositionHeatmap frames 10 of
           Inl e \<Rightarrow> Inl e
         | Inr heatmap \<Rightarrow>
             (case calculateCourtCoverage frames 10 of
                Inl e \<Rightarrow> Inl e
              | Inr coverage \<Rightarrow>
                  Inr \<lparr>playerStats =
                         \<lparr>averageSpeed = averagePlayerSpeed,
                          player_maxSpeed = maxPlayerSpeed t,
                          totalDistanceCovered = totalDistance,
                          shotsHit = shots t,
                          forehandCount = forehands t,
                          backhandCount = backhands t,
                          serveCount = serves t,
                          volleyCount = volleys t,
                          positionHeatmap = heatmap\<rparr>,
                       shotStats =
                         \<lparr>averageBallSpeed = averageBall,
                          maxBallSpeed = maxBall t,
                          shotTypes = shot_types t\<rparr>,
                       courtCoverage = coverage,
                       videoMetadata = metadata\<rparr>))"

subsection \<open>Auxiliary notion for the heatmap\<close>

text \<open>A grid of \<open>n\<close> rows of \<open>n\<close> cells.\<close>

definition square_grid :: "nat \<Rightarrow> nat list list \<Rightarrow> bool" where
  "square_grid n grid = (length grid = n \<and> (\<forall>row \<in> set grid. length row = n))"

section \<open>Advanced tennis tracker (src/lib/tennis-tracker-advanced.ts)\<close>

text \<open>A \<open>Player\<close>: the object of a tracked player with its id.\<close>

record Player = ObjectBox +
  player_id :: string

text \<open>
  An \<open>AdvancedTrackingFrame\<close>, with the fields that the player statistics, the
  heatmaps and the coverage of \<open>generateAdvancedAnalysisResult\<close> read: the timestamp,
  the players and the ball (\<open>None\<close> for a frame without a ball).
\<close>

record AdvancedTrackingFrame =
  adv_timestamp :: real
  players :: "Player list"
  adv_ball :: "ObjectBox option"

text \<open>The file's own \<open>calculateSpeed\<close> (metres per second) and \<open>calculateDistance\<close>.\<close>

definition adv_calculateSpeed :: "real \<Rightarrow> real \<Rightarrow> real \<Rightarrow> real \<Rightarrow> real \<Rightarrow> real \<Rightarrow> number" where
  "adv_calculateSpeed x1 y1 x2 y2 timeDiff pixelsToMeters =
     (let d = sqrt ((x2 - x1)\<^sup>2 + (y2 - y1)\<^sup>2)
      in num_div (Fin (d * pixelsToMeters)) (Fin timeDiff))"

definition adv_calculateDistance :: "real \<Rightarrow> real \<Rightarrow> real \<Rightarrow> real \<Rightarrow> real \<Rightarrow> real" where
  "adv_calculateDistance x1 y1 x2 y2 pixelsToMeters =
     (let d = sqrt ((x2 - x1)\<^sup>2 + (y2 - y1)\<^sup>2) in d * pixelsToMeters)"

text \<open>\<open>createHeatmap\<close>: a 10 by 10 grid, one position.\<close>

definition createHeatmap_step ::
  "real \<Rightarrow> real \<Rightarrow> real \<times> real \<Rightarrow> js_error + nat list list \<Rightarrow> js_error + nat list list" where
  "createHeatmap_step w h pos acc =
     (case acc of
        Inl e \<Rightarrow> Inl e
      | Inr grid \<Rightarrow>
          let gridX = num_min (num_floor (num_mul (num_div (Fin (fst pos)) (Fin w)) (Fin 10)))
                              (Fin 9);
              gridY = num_min (num_floor (num_mul (num_div (Fin (snd pos)) (Fin h)) (Fin 10)))
                              (Fin 9)
          in case array_index gridY 10 of
               None \<Rightarrow> Inl TypeError
             | Some row \<Rightarrow>
                 (case array_index gridX 10 of
                    None \<Rightarrow> Inr grid
                  | Some col \<Rightarrow> Inr (grid[row := (grid ! row)[col := grid ! row ! col + 1]])))"

definition createHeatmap :: "(real \<times> real) list \<Rightarrow> real \<Rightarrow> real \<Rightarrow> js_error + nat list list" where
  "createHeatmap positions w h =
     fold (createHeatmap_step w h) positions (Inr (replicate 10 (replicate 10 0)))"

text \<open>The ids of the players of all frames, in the order of their first occurrence.\<close>

definition add_id :: "string \<Rightarrow> string list \<Rightarrow> string list" where
  "add_id i ids = (if i \<in> set ids then ids else ids @ [i])"

definition player_ids :: "AdvancedTrackingFrame list \<Rightarrow> string list" where
  "player_ids frames = fold (\<lambda>frame ids. fold (\<lambda>p. add_id (player_id p)) (players frame) ids) frames []"

text \<open>\<open>frame.players.find(p => p.id === playerId)\<close>.\<close>

definition find_player :: "string \<Rightarrow> AdvancedTrackingFrame \<Rightarrow> Player option" where
  "find_player i frame = find (\<lambda>p. player_id p = i) (players frame)"

text \<open>
  The speeds (km/h) and distances of one player over consecutive frames that hold the
  player.
\<close>

fun player_speeds :: "string \<Rightarrow> real \<Rightarrow> AdvancedTrackingFrame list \<Rightarrow> number list" where
  "player_speeds i pixelsToMeters (prevFrame # currFrame # rest) =
     (case (find_player i prevFrame, find_player i currFrame) of
        (Some prevPlayer, Some currPlayer) \<Rightarrow>
          [num_mul (adv_calculateSpeed (centerX currPlayer) (centerY currPlayer)
                      (centerX prevPlayer) (centerY prevPlayer)
                      (adv_timestamp currFrame - adv_timestamp prevFrame) pixelsToMeters)
                   (Fin 3.6)]
      | _ \<Rightarrow> [])
     @ player_speeds i pixelsToMeters (currFrame # rest)"
| "player_speeds i pixelsToMeters _ = []"

fun player_distances :: "string \<Rightarrow> real \<Rightarrow> AdvancedTrackingFrame list \<Rightarrow> real list" where
  "player_distances i pixelsToMeters (prevFrame # currFrame # rest) =
     (case (find_player i prevFrame, find_player i currFrame) of
        (Some prevPlayer, Some currPlayer) \<Rightarrow>
          [adv_calculateDistance (centerX currPlayer) (centerY currPlayer)
             (centerX prevPlayer) (centerY prevPlayer) pixelsToMeters]
      | _ \<Rightarrow> [])
     @ player_distances i pixelsToMeters (currFrame # rest)"
| "player_distances i pixelsToMeters _ = []"

text \<open>
  The statistics of one player, without the shot counts (they come from the frames'
  shot flags and the Gemini analysis, which the speed and coverage figures do not read).
\<close>

record AdvancedPlayerStats =
  stats_id :: string
  adv_averageSpeed :: number
  adv_maxSpeed :: number
  adv_totalDistanceCovered :: real
  adv_positionHeatmap :: "nat list list"

text \<open>\<open>Math.max(...speeds)\<close>; of no argument it is \<open>-Infinity\<close>.\<close>

definition max_of :: "number list \<Rightarrow> number" where
  "max_of speeds = fold (\<lambda>v m. num_max m v) speeds NInf"

definition sum_of :: "number list \<Rightarrow> number" where
  "sum_of speeds = fold (\<lambda>speed total. num_add total speed) speeds (Fin 0)"

definition player_stats ::
  "AdvancedTrackingFrame list \<Rightarrow> VideoMetadata \<Rightarrow> real \<Rightarrow> string \<Rightarrow> js_error + AdvancedPlayerStats" where
  "player_stats frames metadata pixelsToMeters i =
     (let playerFrames = filter (\<lambda>frame. \<exists>p \<in> set (players frame). player_id p = i) frames;
          playerPositions = concat (map (\<lambda>frame. case find_player i frame of
                                                None \<Rightarrow> []
                                              | Some p \<Rightarrow> [(centerX p, centerY p)]) playerFrames);
          playerSpeeds = player_speeds i pixelsToMeters playerFrames;
          totalDistance = sum_list (player_distances i pixelsToMeters playerFrames)
      in case createHeatmap playerPositions (video_width metadata) (video_height metadata) of
           Inl e \<Rightarrow> Inl e
         | Inr heatmap \<Rightarrow>
             Inr \<lparr>stats_id = i,
                  adv_averageSpeed =
                    (if length playerSpeeds > 0
                     then num_div (sum_of playerSpeeds) (Fin (real (length playerSpeeds)))
                     else Fin 0),
                  adv_maxSpeed = (if length playerSpeeds > 0 then max_of playerSpeeds else Fin 0),
                  adv_totalDistanceCovered = totalDistance,
                  adv_positionHeatmap = heatmap\<rparr>)"

text \<open>All players' statistics in turn; the first error ends the computation.\<close>

fun all_player_stats ::
  "AdvancedTrackingFrame list \<Rightarrow> VideoMetadata \<Rightarrow> real \<Rightarrow> string list \<Rightarrow>
   js_error + AdvancedPlayerStats list" where
  "all_player_stats frames metadata pixelsToMeters [] = Inr []"
| "all_player_stats frames metadata pixelsToMeters (i # ids) =
     (case player_stats frames metadata pixelsToMeters i of
        Inl e \<Rightarrow> Inl e
      | Inr s \<Rightarrow>
          (case all_player_stats frames metadata pixelsToMeters ids of
             Inl e \<Rightarrow> Inl e
           | Inr rest \<Rightarrow> Inr (s # rest)))"

text \<open>
  The result of \<open>generateAdvancedAnalysisResult\<close>: the primary player's statistics and
  the coverage. The statistics are stored by player id in the object \<open>playerStatsMap\<close>
  and read back by id; here they are a list, searched by id. The field \<open>allPlayers\<close>
  (\<open>Object.values\<close> of that object, in the key order of JavaScript), the shot
  statistics and the copy of the frames are left out of the result, and player ids that
  name a property of \<open>Object.prototype\<close> are outside the model.

  After the players' statistics the function builds the heatmap of the ball positions.
  The result does not hold it, but \<open>createHeatmap\<close> can throw, and then the function
  returns nothing.
\<close>

record AdvancedAnalysisResult =
  adv_playerStats :: AdvancedPlayerStats
  adv_courtCoverage :: number

definition ball_positions :: "AdvancedTrackingFrame list \<Rightarrow> (real \<times> real) list" where
  "ball_positions frames =
     concat (map (\<lambda>frame. case adv_ball frame of
                               None \<Rightarrow> []
                             | Some b \<Rightarrow> [(centerX b, centerY b)]) frames)"

definition generateAdvancedAnalysisResult ::
  "AdvancedTrackingFrame list \<Rightarrow> VideoMetadata \<Rightarrow> real \<Rightarrow> js_error + AdvancedAnalysisResult" where
  "generateAdvancedAnalysisResult frames metadata pixelsToMeters =
     (let playerIds = player_ids frames in
      case all_player_stats frames metadata pixelsToMeters playerIds of
        Inl e \<Rightarrow> Inl e
      | Inr stats \<Rightarrow>
          let primaryPlayerId =
                (case playerIds of
                   [] \<Rightarrow> ''player1''
                 | i # _ \<Rightarrow> if i = [] then ''player1'' else i);
              primaryPlayerStats =
                (case find (\<lambda>s. stats_id s = primaryPlayerId) stats of
                   Some s \<Rightarrow> s
                 | None \<Rightarrow> \<lparr>stats_id = primaryPlayerId, adv_averageSpeed = Fin 0,
                             adv_maxSpeed = Fin 0, adv_totalDistanceCovered = 0,
                             adv_positionHeatmap = replicate 10 (replicate 10 0)\<rparr>)
          in case createHeatmap (ball_positions frames) (video_width metadata)
                    (video_height metadata) of
               Inl e \<Rightarrow> Inl e
             | Inr ballHeatmap \<Rightarrow>
                 Inr \<lparr>adv_playerStats = primaryPlayerStats, adv_courtCoverage = Fin 75\<rparr>)"

section \<open>Example inputs for the analysis\<close>

text \<open>A box of 10 by 10 pixels around a centre.\<close>

definition example_box :: "real \<Rightarrow> real \<Rightarrow> ObjectBox" where
  "example_box cx cy =
     \<lparr>obj_x = cx - 5, obj_y = cy - 5, obj_width = 10, obj_height = 10,
      centerX = cx, centerY = cy, obj_confidence = 0.9\<rparr>"

text \<open>A frame with a player and a ball on a court of 1000 by 1000 pixels.\<close>

definition example_frame :: "nat \<Rightarrow> real \<Rightarrow> real \<times> real \<Rightarrow> real \<times> real \<Rightarrow> TrackingFrame" where
  "example_frame n t p b =
     \<lparr>frameId = n, timestamp = t,
      player = Some (example_box (fst p) (snd p)), ball = Some (example_box (fst b) (snd b)),
      courtInfo = Some \<lparr>court_width = 1000, court_height = 1000, baselineY = 900,
                        netY = 500, serviceLineY = 350\<rparr>,
      distancePlayerToBall = None, isShot = None, shotType = None,
      playerSpeed = None, ballSpeed = None, playerDistanceCovered = None,
      totalPlayerDistanceCovered = None\<rparr>"

definition example_point :: "real \<Rightarrow> real \<Rightarrow> real \<Rightarrow> Coordinates" where
  "example_point px py t = \<lparr>coord_x = px, coord_y = py, coord_timestamp = t\<rparr>"

text \<open>A frame without a shot: the player at \<open>(px, 500)\<close> with the speed \<open>v\<close>.\<close>

definition speed_frame :: "nat \<Rightarrow> real \<Rightarrow> real \<Rightarrow> TrackingFrame" where
  "speed_frame n px v =
     (example_frame n (real n) (px, 500) (800, 900))
       \<lparr>isShot := Some False, playerSpeed := Some (Fin v), ballSpeed := Some (Fin 0)\<rparr>"

definition example_metadata :: VideoMetadata where
  "example_metadata = \<lparr>duration = 2, video_width = 1000, video_height = 1000\<rparr>"

text \<open>Three frames of a player who moves at 10 and then at 20 km/h.\<close>

definition example_frames :: "TrackingFrame list" where
  "example_frames = [speed_frame 0 500 0, speed_frame 1 510 10, speed_frame 2 530 20]"

text \<open>The same frames, the last one flagged as a shot.\<close>

definition example_frames_shot :: "TrackingFrame list" where
  "example_frames_shot =
     [speed_frame 0 500 0, speed_frame 1 510 10, (speed_frame 2 530 20)\<lparr>isShot := Some True\<rparr>]"

definition example_player :: "string \<Rightarrow> real \<Rightarrow> real \<Rightarrow> Player" where
  "example_player i cx cy =
     \<lparr>obj_x = cx - 5, obj_y = cy - 5, obj_width = 10, obj_height = 10,
      centerX = cx, centerY = cy, obj_confidence = 0.95, player_id = i\<rparr>"

text \<open>
  Two frames of one player who moves 50 pixels in one second, with the ball at a fixed
  place.
\<close>

definition example_advanced_frames :: "AdvancedTrackingFrame list" where
  "example_advanced_frames =
     [\<lparr>adv_timestamp = 0, players = [example_player ''player1'' 500 500],
       adv_ball = Some (example_box 800 900)\<rparr>,
      \<lparr>adv_timestamp = 1, players = [example_player ''player1'' 530 540],
       adv_ball = Some (example_box 800 900)\<rparr>]"

text \<open>One frame without a player, the centre of the ball 10 pixels above the image.\<close>

definition ball_above_frames :: "AdvancedTrackingFrame list" where
  "ball_above_frames =
     [\<lparr>adv_timestamp = 0, players = [], adv_ball = Some (example_box 500 (- 10))\<rparr>]"

section \<open>Properties of the tracker\<close>

text \<open>
  The indices of every match are in range, so the list accesses of steps 3 and 4 read
  elements that exist.
\<close>

lemma fold_best_step_index:
  assumes "fst (fold (best_step row M) ts acc) = Some t"
  shows "fst acc = Some t \<or> t \<in> set ts"
  using assms
proof (induction ts arbitrary: acc)
  case Nil
  then show ?case by simp
next
  case (Cons a ts)
  from Cons.IH[of "best_step row M a acc"] Cons.prems
  have "fst (best_step row M a acc) = Some t \<or> t \<in> set ts" by simp
  then show ?case
    by (cases acc) (auto simp: best_step_def Let_def split: if_splits)
qed

lemma find_best_index: "find_best thresh row M n = Some t \<Longrightarrow> t < n"
  using fold_best_step_index[of row M "[0..<n]" "(None, Fin thresh)" t]
  by (simp add: find_best_def)

lemma fold_match_step_indices:
  assumes "fold (match_step thresh iouMatrix n) ds (ms, md, mt) = (ms', md', mt')"
    and "(d, t) \<in> set ms'"
  shows "(d, t) \<in> set ms \<or> (d \<in> set ds \<and> t < n)"
  using assms
proof (induction ds arbitrary: ms md mt)
  case Nil
  then show ?case by simp
next
  case (Cons a ds)
  obtain ms1 md1 mt1 where step: "match_step thresh iouMatrix n a (ms, md, mt) = (ms1, md1, mt1)"
    by (cases "match_step thresh iouMatrix n a (ms, md, mt)") auto
  from Cons.IH[of ms1 md1 mt1] Cons.prems step
  have "(d, t) \<in> set ms1 \<or> (d \<in> set ds \<and> t < n)" by simp
  moreover have "(d, t) \<in> set ms \<or> (d = a \<and> t < n)" if "(d, t) \<in> set ms1"
    using that step
    by (auto simp: match_step_def split: option.splits dest: find_best_index)
  ultimately show ?case by auto
qed

lemma matches_in_range:
  assumes "(d, t) \<in> set (matches (matchDetectionsToTracks opts trks dets))"
  shows "d < length dets \<and> t < length trks"
proof (cases "trks = [] \<or> dets = []")
  case True
  then have "matches (matchDetectionsToTracks opts trks dets) = []"
    by (auto simp: matchDetectionsToTracks_def)
  with assms show ?thesis by simp
next
  case False
  let ?M = "map (\<lambda>d. map (\<lambda>t. iou (bbox d) (bbox t)) trks) dets"
  obtain ms md mt where f: "fold (match_step (match_thresh opts) ?M (length trks))
                       [0..<length dets] ([], {}, {}) = (ms, md, mt)"
    by (cases "fold (match_step (match_thresh opts) ?M (length trks)) [0..<length dets] ([], {}, {})") auto
  with False assms have "(d, t) \<in> set ms"
    by (simp add: matchDetectionsToTracks_def Let_def)
  from fold_match_step_indices[OF f this] show ?thesis by simp
qed

lemma update_matched_length: "length (update_matched dets m trks) = length trks"
  by (cases m) (simp add: update_matched_def Let_def)

lemma fold_update_matched_length:
  "length (fold (update_matched dets) ms trks) = length trks"
  by (induction ms arbitrary: trks) (simp_all add: update_matched_length)

lemma update_matched_track_id:
  "map track_id (update_matched dets m trks) = map track_id trks"
proof (cases m)
  case (Pair d b)
  have "(map track_id trks)[b := track_id (trks ! b)] = map track_id trks"
    by (cases "b < length trks") (simp_all add: list_update_same_conv list_update_beyond)
  with Pair show ?thesis
    by (simp add: update_matched_def Let_def map_update)
qed

lemma fold_update_matched_track_id:
  "map track_id (fold (update_matched dets) ms trks) = map track_id trks"
  by (induction ms arbitrary: trks) (simp_all add: update_matched_track_id)

lemma update_matched_other:
  "i \<noteq> snd m \<Longrightarrow> update_matched dets m trks ! i = trks ! i"
  by (cases m) (simp add: update_matched_def Let_def)

lemma fold_update_matched_other:
  "i \<notin> snd ` set ms \<Longrightarrow> fold (update_matched dets) ms trks ! i = trks ! i"
  by (induction ms arbitrary: trks) (simp_all add: update_matched_other)

lemma fold_create_track:
  "fold (create_track opts dets) idxs (trks, cnt) =
     (trks @ map (\<lambda>(n, d). new_track d n)
               (enumerate (Suc cnt) (filter (\<lambda>d. track_thresh opts \<le> confidence d) (map ((!) dets) idxs))),
      cnt + length (filter (\<lambda>d. track_thresh opts \<le> confidence d) (map ((!) dets) idxs)))"
  by (induction idxs arbitrary: trks cnt) (simp_all add: create_track_def Let_def)

lemma age_track_id: "track_id (age_track opts t) = track_id t"
  by (simp add: age_track_def Let_def)

lemma update_tracks:
  "tracks (fst (update bt dets)) =
     filter (\<lambda>t. state t \<noteq> deleted) (matched_tracks bt dets) @
     map (\<lambda>(n, d). new_track d n)
       (enumerate (Suc (track_id_count bt))
          (filter (\<lambda>d. track_thresh (options bt) \<le> confidence d)
             (map ((!) dets)
                (unmatchedDetections
                   (matchDetectionsToTracks (options bt) (map (age_track (options bt)) (tracks bt)) dets)))))"
proof -
  have "filter (\<lambda>t. state t \<noteq> deleted) (map (\<lambda>(n, d). new_track d n) xs) = map (\<lambda>(n, d). new_track d n) xs" for xs
    by (induction xs) (auto simp: new_track_def)
  then show ?thesis
    by (simp add: update_def matched_tracks_def Let_def fold_create_track)
qed

lemma update_count:
  "track_id_count (fst (update bt dets)) =
     track_id_count bt +
     length (filter (\<lambda>d. track_thresh (options bt) \<le> confidence d)
             (map ((!) dets)
                (unmatchedDetections
                   (matchDetectionsToTracks (options bt) (map (age_track (options bt)) (tracks bt)) dets))))"
  by (simp add: update_def Let_def fold_create_track)

lemma update_options: "options (fst (update bt dets)) = options bt"
  by (simp add: update_def Let_def)

lemma update_returned:
  "snd (update bt dets) = filter (\<lambda>t. state t = confirmed \<or> state t = tentative) (tracks (fst (update bt dets)))"
  by (simp add: update_def Let_def)

lemma matched_tracks_ids: "map track_id (matched_tracks bt dets) = map track_id (tracks bt)"
  by (simp add: matched_tracks_def Let_def fold_update_matched_track_id age_track_id)

lemma enumerate_fst_bounds: "(n, d) \<in> set (enumerate m xs) \<Longrightarrow> m \<le> n \<and> n < m + length xs"
  by (auto simp: in_set_enumerate_eq)

lemma update_ids_bounded:
  assumes "ids_bounded bt" shows "ids_bounded (fst (update bt dets))"
proof -
  have a: "track_id t \<le> track_id_count bt" if "t \<in> set (matched_tracks bt dets)" for t
  proof -
    from that have "track_id t \<in> set (map track_id (matched_tracks bt dets))" by simp
    then have "track_id t \<in> track_id ` set (tracks bt)" by (simp add: matched_tracks_ids)
    with assms show ?thesis by (auto simp: ids_bounded_def)
  qed
  show ?thesis
    unfolding ids_bounded_def update_tracks update_count
    by (auto dest!: a enumerate_fst_bounds simp: new_track_def)
qed

lemma unmatched_track_aged:
  assumes nm: "k \<notin> set (matched_ids bt dets)"
    and i: "i < length (tracks bt)" and k: "track_id (tracks bt ! i) = k"
  shows "matched_tracks bt dets ! i = age_track (options bt) (tracks bt ! i)"
proof -
  let ?ms = "matches (matchDetectionsToTracks (options bt) (map (age_track (options bt)) (tracks bt)) dets)"
  have "i \<notin> snd ` set ?ms"
  proof
    assume "i \<in> snd ` set ?ms"
    then obtain d where "(d, i) \<in> set ?ms" by auto
    then have "track_id (tracks bt ! i) \<in> set (matched_ids bt dets)"
      by (force simp: matched_ids_def)
    with nm k show False by simp
  qed
  then show ?thesis
    using i by (simp add: matched_tracks_def Let_def fold_update_matched_other)
qed

lemma matched_tracks_length: "length (matched_tracks bt dets) = length (tracks bt)"
  by (simp add: matched_tracks_def Let_def fold_update_matched_length)

lemma surviving_track_cases:
  assumes "t' \<in> set (tracks (fst (update bt dets)))"
  shows "(t' \<in> set (matched_tracks bt dets) \<and> state t' \<noteq> deleted) \<or> track_id_count bt < track_id t'"
  using assms unfolding update_tracks
  by (auto dest!: enumerate_fst_bounds simp: new_track_def)

lemma unmatched_step:
  assumes nm: "k \<notin> set (matched_ids bt dets)"
    and t': "t' \<in> set (tracks (fst (update bt dets)))" "track_id t' = k"
    and kc: "k \<le> track_id_count bt"
  shows "\<exists>t\<in>set (tracks bt). track_id t = k \<and> time_since_update t' = Suc (time_since_update t)
           \<and> real (time_since_update t') \<le> track_buffer (options bt)"
proof -
  from surviving_track_cases[OF t'(1)] t'(2) kc
  have mem: "t' \<in> set (matched_tracks bt dets)" and nd: "state t' \<noteq> deleted" by auto
  from mem obtain i where i: "i < length (tracks bt)" and ti: "matched_tracks bt dets ! i = t'"
    by (auto simp: in_set_conv_nth matched_tracks_length)
  have "map track_id (matched_tracks bt dets) ! i = map track_id (tracks bt) ! i"
    by (simp add: matched_tracks_ids)
  with i ti t'(2) have ki: "track_id (tracks bt ! i) = k"
    by (simp add: matched_tracks_length)
  from unmatched_track_aged[OF nm i ki] ti
  have eq: "t' = age_track (options bt) (tracks bt ! i)" by simp
  from nd have "time_since_update t' = Suc (time_since_update (tracks bt ! i))
      \<and> real (time_since_update t') \<le> track_buffer (options bt)"
    unfolding eq by (auto simp: age_track_def Let_def split: if_splits)
  with i ki show ?thesis by (intro bexI[of _ "tracks bt ! i"]) auto
qed

lemma run_append: "run bt (xs @ ys) = run (run bt xs) ys"
  by (induction xs arbitrary: bt) simp_all

lemma run_snoc: "run bt (xs @ [ds]) = fst (update (run bt xs) ds)"
  by (simp add: run_append)

lemma never_matched_snoc:
  "never_matched k bt (xs @ [ds]) = (never_matched k bt xs \<and> k \<notin> set (matched_ids (run bt xs) ds))"
  by (induction xs arbitrary: bt) simp_all

lemma run_options: "options (run bt xs) = options bt"
  by (induction xs arbitrary: bt) (simp_all add: update_options)

lemma run_ids_bounded: "ids_bounded bt \<Longrightarrow> ids_bounded (run bt xs)"
  by (induction xs arbitrary: bt) (simp_all add: update_ids_bounded)

lemma run_count_mono: "track_id_count bt \<le> track_id_count (run bt xs)"
proof (induction xs arbitrary: bt)
  case Nil
  show ?case by simp
next
  case (Cons ds xs)
  have "track_id_count bt \<le> track_id_count (fst (update bt ds))"
    by (simp add: update_count)
  also have "\<dots> \<le> track_id_count (run (fst (update bt ds)) xs)" by (rule Cons.IH)
  finally show ?case by simp
qed

lemma new_ids_bounded: "ids_bounded (ByteTracker_new opts)"
  by (simp add: ids_bounded_def ByteTracker_new_def)

lemma unmatched_run:
  assumes "k \<le> track_id_count bt" "never_matched k bt dss"
    and "t \<in> set (tracks (run bt dss))" "track_id t = k"
  shows "length dss \<le> time_since_update t \<and>
         (dss \<noteq> [] \<longrightarrow> real (time_since_update t) \<le> track_buffer (options bt))"
  using assms(2-)
proof (induction dss arbitrary: t rule: rev_induct)
  case Nil
  then show ?case by simp
next
  case (snoc ds dss)
  from snoc.prems(1) have nm: "never_matched k bt dss" and nk: "k \<notin> set (matched_ids (run bt dss) ds)"
    by (simp_all add: never_matched_snoc)
  have kc: "k \<le> track_id_count (run bt dss)"
    using assms(1) run_count_mono[of bt dss] by simp
  from snoc.prems(2) have "t \<in> set (tracks (fst (update (run bt dss) ds)))"
    by (simp add: run_snoc)
  from unmatched_step[OF nk this snoc.prems(3) kc]
  obtain t0 where t0: "t0 \<in> set (tracks (run bt dss))" "track_id t0 = k"
    "time_since_update t = Suc (time_since_update t0)"
    "real (time_since_update t) \<le> track_buffer (options bt)"
    by (auto simp: run_options)
  from snoc.IH[OF nm t0(1,2)] have "length dss \<le> time_since_update t0" by simp
  with t0 show ?case by simp
qed

lemma absent_step:
  assumes "ids_bounded bt" "k \<le> track_id_count bt" "k \<notin> track_id ` set (tracks bt)"
  shows "k \<notin> track_id ` set (tracks (fst (update bt ds)))"
proof
  assume "k \<in> track_id ` set (tracks (fst (update bt ds)))"
  then obtain t' where t': "t' \<in> set (tracks (fst (update bt ds)))" "track_id t' = k" by auto
  from surviving_track_cases[OF t'(1)] t'(2) assms(2)
  have "t' \<in> set (matched_tracks bt ds)" by auto
  then have "track_id t' \<in> set (map track_id (matched_tracks bt ds))" by simp
  then have "k \<in> track_id ` set (tracks bt)" using t'(2) by (simp add: matched_tracks_ids)
  with assms(3) show False by simp
qed

lemma absent_run:
  assumes "ids_bounded bt" "k \<le> track_id_count bt" "k \<notin> track_id ` set (tracks bt)"
  shows "k \<notin> track_id ` set (tracks (run bt dss))"
  using assms
proof (induction dss arbitrary: bt)
  case Nil
  then show ?case by simp
next
  case (Cons ds dss)
  have "k \<le> track_id_count (fst (update bt ds))"
    using Cons.prems(2) by (simp add: update_count)
  with Cons show ?case
    by (simp add: update_ids_bounded absent_step)
qed

text \<open>
  C2. In a tracker reached from a fresh one by any history of \<open>update\<close> calls, take a
  live track with id \<open>k\<close> and a non-empty run of more than \<open>track_buffer\<close> consecutive
  calls none of which matches a detection to it. Then the track is gone from the live set
  (which is what the last of these calls returned), the next call does not return a
  track with id \<open>k\<close>, and neither does any later call (\<open>later\<close> is any further
  sequence of calls before it): the id is never used again.
\<close>

theorem track_deletion:
  assumes reach: "bt = run (ByteTracker_new opts) history"
    and present: "k \<in> track_id ` set (tracks bt)"
    and nm: "never_matched k bt dss"
    and ne: "dss \<noteq> []"
    and long: "track_buffer (options bt) < real (length dss)"
  shows "k \<notin> track_id ` set (tracks (run bt dss))
       \<and> k \<notin> track_id ` set (snd (update (run bt (dss @ later)) next_detections))"
proof -
  have ib: "ids_bounded bt" unfolding reach by (rule run_ids_bounded[OF new_ids_bounded])
  with present have kc: "k \<le> track_id_count bt" by (auto simp: ids_bounded_def)
  have gone: "k \<notin> track_id ` set (tracks (run bt dss))"
  proof
    assume "k \<in> track_id ` set (tracks (run bt dss))"
    then obtain t where t: "t \<in> set (tracks (run bt dss))" "track_id t = k" by auto
    from unmatched_run[OF kc nm t] ne
    have "real (length dss) \<le> track_buffer (options bt)" by simp
    with long show False by simp
  qed
  have ib': "ids_bounded (run bt dss)" by (rule run_ids_bounded[OF ib])
  have kc': "k \<le> track_id_count (run bt dss)" using kc run_count_mono[of bt dss] by simp
  have "k \<notin> track_id ` set (tracks (run bt (dss @ later @ [next_detections])))"
    using absent_run[OF ib' kc' gone, of "later @ [next_detections]"]
    by (simp add: run_append)
  then have "k \<notin> track_id ` set (tracks (fst (update (run bt (dss @ later)) next_detections)))"
    by (simp add: run_append)
  then have "k \<notin> track_id ` set (snd (update (run bt (dss @ later)) next_detections))"
    by (auto simp: update_returned)
  with gone show ?thesis by simp
qed

text \<open>
  C3. In a tracker reached from a fresh one, the list of tracks that an \<open>update\<close> call
  stores is: the tracks of steps 1 to 3 that are not deleted (they are the old tracks, in
  their order and with their old ids, none above the old counter), followed by one new
  track for each detection that the matching left unmatched and whose confidence is at
  least \<open>track_thresh\<close>, in the detections' order, with the ids old counter plus one,
  plus two, ..., \<open>age = 1\<close>, \<open>hits = 1\<close>, \<open>time_since_update = 0\<close> and state
  tentative, and nothing else. So an unmatched detection below the threshold adds no
  track. The call returns the stored list, and the counter advances by the number of new
  tracks.
\<close>

theorem track_creation:
  assumes "bt = run (ByteTracker_new opts) history"
  shows "tracks (fst (update bt dets)) =
           filter (\<lambda>t. state t \<noteq> deleted) (matched_tracks bt dets) @
           map (\<lambda>(n, d). d\<lparr>track_id := n, age := 1, hits := 1, time_since_update := 0,
                             state := tentative\<rparr>)
             (enumerate (Suc (track_id_count bt))
                (filter (\<lambda>d. track_thresh (options bt) \<le> confidence d)
                   (map ((!) dets)
                      (unmatchedDetections
                         (matchDetectionsToTracks (options bt)
                            (map (age_track (options bt)) (tracks bt)) dets)))))
         \<and> map track_id (matched_tracks bt dets) = map track_id (tracks bt)
         \<and> filter (\<lambda>t. track_id_count bt < track_id t) (matched_tracks bt dets) = []
         \<and> filter (\<lambda>t. track_id_count bt < track_id t) (tracks (fst (update bt dets))) =
           map (\<lambda>(n, d). d\<lparr>track_id := n, age := 1, hits := 1, time_since_update := 0,
                             state := tentative\<rparr>)
             (enumerate (Suc (track_id_count bt))
                (filter (\<lambda>d. track_thresh (options bt) \<le> confidence d)
                   (map ((!) dets)
                      (unmatchedDetections
                         (matchDetectionsToTracks (options bt)
                            (map (age_track (options bt)) (tracks bt)) dets)))))
         \<and> snd (update bt dets) = tracks (fst (update bt dets))
         \<and> track_id_count (fst (update bt dets)) =
           track_id_count bt +
           length (filter (\<lambda>d. track_thresh (options bt) \<le> confidence d)
                   (map ((!) dets)
                      (unmatchedDetections
                         (matchDetectionsToTracks (options bt)
                            (map (age_track (options bt)) (tracks bt)) dets))))"
proof -
  let ?cands = "filter (\<lambda>d. track_thresh (options bt) \<le> confidence d)
                   (map ((!) dets)
                      (unmatchedDetections
                         (matchDetectionsToTracks (options bt)
                            (map (age_track (options bt)) (tracks bt)) dets)))"
  have ib: "ids_bounded bt" unfolding assms by (rule run_ids_bounded[OF new_ids_bounded])
  have bound: "\<forall>t\<in>set (matched_tracks bt dets). \<not> track_id_count bt < track_id t"
  proof
    fix t assume "t \<in> set (matched_tracks bt dets)"
    then have "track_id t \<in> set (map track_id (matched_tracks bt dets))" by simp
    then have "track_id t \<in> track_id ` set (tracks bt)" by (simp add: matched_tracks_ids)
    with ib show "\<not> track_id_count bt < track_id t" by (auto simp: ids_bounded_def)
  qed
  then have old0: "filter (\<lambda>t. track_id_count bt < track_id t) (matched_tracks bt dets) = []"
    by (simp add: filter_empty_conv)
  from bound have old: "filter (\<lambda>t. state t \<noteq> deleted \<and> track_id_count bt < track_id t)
               (matched_tracks bt dets) = []"
    by (simp add: filter_empty_conv)
  have new: "filter (\<lambda>t. c < track_id t) (map (\<lambda>(n, d). new_track d n) (enumerate (Suc c) xs))
               = map (\<lambda>(n, d). new_track d n) (enumerate (Suc c) xs)" for c xs
    by (rule filter_True) (auto dest!: enumerate_fst_bounds simp: new_track_def)
  have nt: "(\<lambda>(n, d). new_track d n) = (\<lambda>(n, d). d\<lparr>track_id := n, age := 1, hits := 1,
               time_since_update := 0, state := tentative\<rparr>)"
    by (simp add: new_track_def fun_eq_iff)
  have act: "filter (\<lambda>t. state t = confirmed \<or> state t = tentative) xs = xs"
    if "\<forall>t\<in>set xs. state t \<noteq> deleted" for xs :: "Track list"
  proof (rule filter_True, rule ballI)
    fix t assume "t \<in> set xs"
    with that have "state t \<noteq> deleted" by simp
    then show "state t = confirmed \<or> state t = tentative" by (cases "state t") simp_all
  qed
  have ret: "snd (update bt dets) = tracks (fst (update bt dets))"
    unfolding update_returned
    by (rule act) (auto simp: update_tracks new_track_def)
  have whole: "tracks (fst (update bt dets)) =
           filter (\<lambda>t. state t \<noteq> deleted) (matched_tracks bt dets) @
           map (\<lambda>(n, d). d\<lparr>track_id := n, age := 1, hits := 1, time_since_update := 0,
                             state := tentative\<rparr>)
             (enumerate (Suc (track_id_count bt)) ?cands)"
    unfolding update_tracks nt ..
  have fresh: "filter (\<lambda>t. track_id_count bt < track_id t) (tracks (fst (update bt dets))) =
           map (\<lambda>(n, d). d\<lparr>track_id := n, age := 1, hits := 1, time_since_update := 0,
                             state := tentative\<rparr>)
             (enumerate (Suc (track_id_count bt)) ?cands)"
    by (simp add: update_tracks old new) (simp add: nt)
  have cnt: "track_id_count (fst (update bt dets)) = track_id_count bt + length ?cands"
    by (rule update_count)
  from whole matched_tracks_ids[of bt dets] old0 fresh ret cnt show ?thesis
    by (intro conjI)
qed

lemma iou_negative_size:
  assumes "w1 < 0 \<or> h1 < 0"
  shows "iou (x1, y1, w1, h1) b = Fin 0"
proof -
  obtain x2 y2 w2 h2 where b: "b = (x2, y2, w2, h2)" by (cases b) auto
  from assms have "min (x1 + w1) (x2 + w2) < max x1 x2 \<or> min (y1 + h1) (y2 + h2) < max y1 y2"
    by auto
  then show ?thesis unfolding b by (simp add: iou_def Let_def)
qed

lemma fold_best_step_none:
  assumes "\<forall>t\<in>set ts. \<not> num_ge (row ! t) b"
  shows "fold (best_step row M) ts (None, b) = (None, b)"
  using assms by (induction ts) (simp_all add: best_step_def Let_def)

lemma find_best_none:
  assumes "\<forall>t<n. \<not> num_ge (row ! t) (Fin thresh)"
  shows "find_best thresh row M n = None"
  using assms by (simp add: find_best_def fold_best_step_none)

lemma fold_match_step_skips:
  assumes "\<And>M. find_best thresh (iouMatrix ! i) M n = None"
    and "i \<notin> md" "i \<notin> fst ` set ms"
    and "fold (match_step thresh iouMatrix n) ds (ms, md, mt) = (ms', md', mt')"
  shows "i \<notin> md' \<and> i \<notin> fst ` set ms'"
  using assms(2-)
proof (induction ds arbitrary: ms md mt)
  case Nil
  then show ?case by simp
next
  case (Cons d ds)
  obtain ms1 md1 mt1 where step: "match_step thresh iouMatrix n d (ms, md, mt) = (ms1, md1, mt1)"
    by (cases "match_step thresh iouMatrix n d (ms, md, mt)") auto
  have "i \<notin> md1 \<and> i \<notin> fst ` set ms1"
  proof (cases "d = i")
    case True
    with step assms(1)[of mt] Cons.prems show ?thesis by (simp add: match_step_def)
  next
    case False
    with step Cons.prems show ?thesis
      by (auto simp: match_step_def split: option.splits)
  qed
  with Cons.IH[of md1 ms1 mt1] Cons.prems(3) step show ?case by simp
qed

lemma negative_size_unmatched:
  assumes box: "bbox (dets ! i) = (x, y, w, h)" and neg: "w < 0 \<or> h < 0"
    and i: "i < length dets" and thr: "0 < match_thresh opts"
  shows "i \<notin> fst ` set (matches (matchDetectionsToTracks opts trks dets))
       \<and> i \<in> set (unmatchedDetections (matchDetectionsToTracks opts trks dets))"
proof (cases "trks = [] \<or> dets = []")
  case True
  with i show ?thesis by (auto simp: matchDetectionsToTracks_def)
next
  case False
  let ?M = "map (\<lambda>d. map (\<lambda>t. iou (bbox d) (bbox t)) trks) dets"
  obtain ms md mt where f: "fold (match_step (match_thresh opts) ?M (length trks))
                       [0..<length dets] ([], {}, {}) = (ms, md, mt)"
    by (cases "fold (match_step (match_thresh opts) ?M (length trks)) [0..<length dets] ([], {}, {})") auto
  have none: "find_best (match_thresh opts) (?M ! i) M (length trks) = None" for M
  proof (rule find_best_none, intro allI impI)
    fix t assume "t < length trks"
    with i box neg thr show "\<not> num_ge (?M ! i ! t) (Fin (match_thresh opts))"
      by (simp add: iou_negative_size)
  qed
  from fold_match_step_skips[OF none _ _ f] have "i \<notin> md \<and> i \<notin> fst ` set ms" by simp
  with False f i show ?thesis
    by (simp add: matchDetectionsToTracks_def Let_def)
qed

text \<open>
  C10, as the code has it. A detection whose box has a negative width or height is
  never matched to an existing track when \<open>match_thresh\<close> is positive (its IoU with every
  box is 0), so it updates no track; \<open>update\<close> is a total function, so the frame does
  not fail; but the detection is not dropped: when its confidence reaches
  \<open>track_thresh\<close> it becomes a new tentative track, which \<open>update\<close> returns.
\<close>

theorem negative_size_detection:
  assumes box: "bbox (dets ! i) = (x, y, w, h)" and neg: "w < 0 \<or> h < 0"
    and i: "i < length dets" and thr: "0 < match_thresh (options bt)"
  shows "i \<notin> fst ` set (matches (matchDetectionsToTracks (options bt)
                                  (map (age_track (options bt)) (tracks bt)) dets))
       \<and> (track_thresh (options bt) \<le> confidence (dets ! i) \<longrightarrow>
            (\<exists>n > track_id_count bt.
               (dets ! i)\<lparr>track_id := n, age := 1, hits := 1, time_since_update := 0,
                          state := tentative\<rparr> \<in> set (snd (update bt dets))))"
proof -
  let ?mr = "matchDetectionsToTracks (options bt) (map (age_track (options bt)) (tracks bt)) dets"
  from negative_size_unmatched[OF box neg i thr]
  have nm: "i \<notin> fst ` set (matches ?mr)" and um: "i \<in> set (unmatchedDetections ?mr)" by auto
  have "\<exists>n > track_id_count bt. new_track (dets ! i) n \<in> set (snd (update bt dets))"
    if c: "track_thresh (options bt) \<le> confidence (dets ! i)"
  proof -
    let ?cands = "filter (\<lambda>d. track_thresh (options bt) \<le> confidence d)
                    (map ((!) dets) (unmatchedDetections ?mr))"
    from um c have "dets ! i \<in> set ?cands" by auto
    then obtain j where j: "j < length ?cands" "?cands ! j = dets ! i"
      unfolding in_set_conv_nth by blast
    then have "(Suc (track_id_count bt) + j, dets ! i) \<in> set (enumerate (Suc (track_id_count bt)) ?cands)"
      by (auto simp: in_set_enumerate_eq)
    then have "new_track (dets ! i) (Suc (track_id_count bt) + j) \<in> set (tracks (fst (update bt dets)))"
      unfolding update_tracks by force
    then have "new_track (dets ! i) (Suc (track_id_count bt) + j) \<in> set (snd (update bt dets))"
      by (simp add: update_returned new_track_def)
    then show ?thesis by (intro exI[of _ "Suc (track_id_count bt) + j"]) simp
  qed
  with nm show ?thesis by (simp add: new_track_def)
qed

subsection \<open>The tracker on the example inputs\<close>

lemmas tracker_defs = update_def matchDetectionsToTracks_def match_step_def find_best_def
  best_step_def age_track_def update_matched_def create_track_def new_track_def iou_def
  ByteTracker_new_def or_default_def Let_def

lemmas example_defs = ball_detection_def inverted_detection_def faint_detection_def
  frame_ball_def frame_empty_def frame_mixed_def default_options_def short_buffer_def

lemma run_ball_tracked: "run (ByteTracker_new default_options) [frame_ball] = ball_tracked"
  by (simp add: ball_tracked_def example_defs tracker_defs upt_conv_Cons)

lemma short_buffer_first:
  "fst (update (ByteTracker_new short_buffer) frame_ball) =
     ball_tracked\<lparr>options := options ball_missed_once\<rparr>"
  by (simp add: ball_tracked_def ball_missed_once_def example_defs tracker_defs upt_conv_Cons)

lemma short_buffer_second:
  "fst (update (ball_tracked\<lparr>options := options ball_missed_once\<rparr>) frame_ball) =
     ball_missed_once\<lparr>tracks := [ball_detection\<lparr>track_id := 1, age := 2, hits := 2\<rparr>]\<rparr>"
  by (simp add: ball_tracked_def ball_missed_once_def example_defs tracker_defs upt_conv_Cons)

lemma short_buffer_third:
  "fst (update (ball_missed_once\<lparr>tracks := [ball_detection\<lparr>track_id := 1, age := 2, hits := 2\<rparr>]\<rparr>)
          frame_ball) =
     ball_missed_once\<lparr>tracks := [ball_detection\<lparr>track_id := 1, age := 3, hits := 3,
                                                  state := confirmed\<rparr>]\<rparr>"
  by (simp add: ball_missed_once_def example_defs tracker_defs upt_conv_Cons)

lemma short_buffer_fourth:
  "fst (update (ball_missed_once\<lparr>tracks := [ball_detection\<lparr>track_id := 1, age := 3, hits := 3,
                                                  state := confirmed\<rparr>]\<rparr>) frame_empty) =
     ball_missed_once"
  by (simp add: ball_missed_once_def example_defs tracker_defs upt_conv_Cons)

lemma run_ball_missed_once:
  "run (ByteTracker_new short_buffer) [frame_ball, frame_ball, frame_ball, frame_empty] =
     ball_missed_once"
  by (simp only: run.simps short_buffer_first short_buffer_second short_buffer_third
      short_buffer_fourth)

text \<open>
  C1. The claim: a track's state only moves tentative to confirmed to deleted or
  tentative to deleted, never deleted to confirmed. The tracker with a one-frame
  buffer sees the ball in three frames, misses it in one and sees it again: the
  stored track is confirmed; step 1 of the next \<open>update\<close> marks it deleted (two
  frames without update exceed the buffer); the matching still pairs it with the
  detection, step 3 sets it confirmed again, and \<open>update\<close> returns it.
\<close>

theorem deleted_track_confirmed_again:
  "run (ByteTracker_new short_buffer) [frame_ball, frame_ball, frame_ball, frame_empty]
     = ball_missed_once
   \<and> map state (tracks ball_missed_once) = [confirmed]
   \<and> map state (map (age_track (options ball_missed_once)) (tracks ball_missed_once))
     = [deleted]
   \<and> map state (matched_tracks ball_missed_once frame_ball) = [confirmed]
   \<and> map (\<lambda>t. (track_id t, state t)) (snd (update ball_missed_once frame_ball))
     = [(1, confirmed)]"
proof -
  have "map state (tracks ball_missed_once) = [confirmed]"
    by (simp add: ball_missed_once_def)
  moreover have "map state (map (age_track (options ball_missed_once)) (tracks ball_missed_once))
     = [deleted]"
    by (simp add: ball_missed_once_def age_track_def)
  moreover have "map state (matched_tracks ball_missed_once frame_ball) = [confirmed]"
    by (simp add: matched_tracks_def ball_missed_once_def example_defs tracker_defs upt_conv_Cons)
  moreover have "map (\<lambda>t. (track_id t, state t)) (snd (update ball_missed_once frame_ball))
     = [(1, confirmed)]"
    by (simp add: ball_missed_once_def example_defs tracker_defs upt_conv_Cons)
  ultimately show ?thesis
    using run_ball_missed_once by simp
qed

text \<open>
  Witness for C2: under the default options (buffer 30) the ball is seen once and then
  missed in 31 frames; the frame after those does not return track 1.
\<close>

theorem track_deletion_witness:
  "1 \<in> track_id ` set (tracks (run (ByteTracker_new default_options) [frame_ball]))
   \<and> never_matched 1 (run (ByteTracker_new default_options) [frame_ball])
        (replicate 31 frame_empty)
   \<and> 1 \<notin> track_id ` set (tracks (run (run (ByteTracker_new default_options) [frame_ball])
                                        (replicate 31 frame_empty)))
   \<and> 1 \<notin> track_id ` set (snd (update (run (run (ByteTracker_new default_options) [frame_ball])
                                           (replicate 31 frame_empty @ [])) frame_ball))"
proof -
  let ?bt = "run (ByteTracker_new default_options) [frame_ball]"
  have p: "1 \<in> track_id ` set (tracks ?bt)"
    unfolding run_ball_tracked by (simp add: ball_tracked_def)
  have step: "never_matched 1 bt (replicate n frame_empty)" for bt n
    by (induction n arbitrary: bt)
       (simp_all add: matched_ids_def matchDetectionsToTracks_def frame_empty_def)
  have l: "track_buffer (options ?bt) < real (length (replicate 31 frame_empty))"
    unfolding run_ball_tracked by (simp add: ball_tracked_def)
  from track_deletion[OF refl p step _ l, of "[]" frame_ball] p step[of ?bt 31]
  show ?thesis by simp
qed

text \<open>
  Witness for C3: with the ball tracked, a frame holds the ball again (matched), a second
  detection of confidence 0.9 (unmatched) and a third of confidence 0.3 (unmatched). The
  stored list is the ball's track, updated, and one new track with id 2 for the second
  detection; the third adds nothing.
\<close>

theorem track_creation_witness:
  "run (ByteTracker_new default_options) [frame_ball] = ball_tracked
   \<and> tracks (fst (update ball_tracked frame_mixed))
     = [ball_detection\<lparr>track_id := 1, age := 2, hits := 2\<rparr>,
        inverted_detection\<lparr>track_id := 2, age := 1, hits := 1, time_since_update := 0,
                            state := tentative\<rparr>]
   \<and> snd (update ball_tracked frame_mixed) = tracks (fst (update ball_tracked frame_mixed))
   \<and> track_id_count (fst (update ball_tracked frame_mixed)) = 2"
proof -
  have m: "unmatchedDetections
             (matchDetectionsToTracks (options ball_tracked)
                (map (age_track (options ball_tracked)) (tracks ball_tracked)) frame_mixed)
           = [1, 2]"
    by (simp add: ball_tracked_def example_defs tracker_defs upt_conv_Cons)
  have c: "filter (\<lambda>d. track_thresh (options ball_tracked) \<le> confidence d)
             (map ((!) frame_mixed) [1, 2]) = [inverted_detection]"
    by (simp add: ball_tracked_def example_defs)
  have k: "filter (\<lambda>t. state t \<noteq> deleted) (matched_tracks ball_tracked frame_mixed)
             = [ball_detection\<lparr>track_id := 1, age := 2, hits := 2\<rparr>]"
    by (simp add: matched_tracks_def ball_tracked_def example_defs tracker_defs upt_conv_Cons)
  have n: "track_id_count ball_tracked = 1" by (simp add: ball_tracked_def)
  note t = track_creation[OF run_ball_tracked[symmetric], of frame_mixed, unfolded m c k n]
  from t have "tracks (fst (update ball_tracked frame_mixed))
     = [ball_detection\<lparr>track_id := 1, age := 2, hits := 2\<rparr>,
        inverted_detection\<lparr>track_id := 2, age := 1, hits := 1, time_since_update := 0,
                            state := tentative\<rparr>]"
    by (simp add: enumerate_eq_zip)
  moreover from t have "snd (update ball_tracked frame_mixed)
     = tracks (fst (update ball_tracked frame_mixed))" by blast
  moreover from t have "track_id_count (fst (update ball_tracked frame_mixed)) = 2"
    by simp
  ultimately show ?thesis using run_ball_tracked by (intro conjI)
qed

text \<open>
  Counterexample to C10 as stated: a fresh tracker given one detection with the box
  \<open>(0, 0, -5, -5)\<close> and confidence 0.9 returns a new track with that box.
\<close>

theorem negative_size_counterexample:
  "map (\<lambda>t. (track_id t, bbox t, state t))
     (snd (update (ByteTracker_new default_options) [inverted_detection]))
   = [(1, (0, 0, - 5, - 5), tentative)]"
  by (simp add: example_defs tracker_defs)

text \<open>Witness for C10 as amended: the second detection of the mixed frame.\<close>

theorem negative_size_detection_witness:
  "bbox (frame_mixed ! 1) = (0, 0, - 5, - 5)
   \<and> 1 \<notin> fst ` set (matches (matchDetectionsToTracks (options ball_tracked)
                                 (map (age_track (options ball_tracked)) (tracks ball_tracked))
                                 frame_mixed))
   \<and> (\<exists>n > track_id_count ball_tracked.
         (frame_mixed ! 1)\<lparr>track_id := n, age := 1, hits := 1, time_since_update := 0,
                            state := tentative\<rparr> \<in> set (snd (update ball_tracked frame_mixed)))"
proof -
  have b: "bbox (frame_mixed ! 1) = (0, 0, - 5, - 5)"
    by (simp add: example_defs)
  have i: "1 < length frame_mixed" by (simp add: example_defs)
  have t: "0 < match_thresh (options ball_tracked)" by (simp add: ball_tracked_def)
  have c: "track_thresh (options ball_tracked) \<le> confidence (frame_mixed ! 1)"
    by (simp add: ball_tracked_def example_defs)
  from negative_size_detection[OF b _ i t] b c show ?thesis by simp
qed

subsection \<open>Further properties of the tracker\<close>

lemma update_returns_stored: "snd (update bt dets) = tracks (fst (update bt dets))"
proof -
  have act: "filter (\<lambda>t. state t = confirmed \<or> state t = tentative) xs = xs"
    if "\<forall>t\<in>set xs. state t \<noteq> deleted" for xs :: "Track list"
  proof (rule filter_True, rule ballI)
    fix t assume "t \<in> set xs"
    with that have "state t \<noteq> deleted" by simp
    then show "state t = confirmed \<or> state t = tentative" by (cases "state t") simp_all
  qed
  show ?thesis
    unfolding update_returned by (rule act) (auto simp: update_tracks new_track_def)
qed

text \<open>
  The second half of C1 holds: every \<open>update\<close> call returns exactly the tracks it keeps
  stored, and none of them is in state deleted.
\<close>

theorem returned_tracks_live:
  "deleted \<notin> state ` set (snd (update bt dets))
   \<and> snd (update bt dets) = tracks (fst (update bt dets))"
  using update_returns_stored[of bt dets] by (auto simp: update_tracks new_track_def)

lemma update_ids_distinct:
  assumes "ids_bounded bt" "ids_distinct bt"
  shows "ids_distinct (fst (update bt dets))"
proof -
  let ?new = "enumerate (Suc (track_id_count bt))
          (filter (\<lambda>d. track_thresh (options bt) \<le> confidence d)
             (map ((!) dets)
                (unmatchedDetections
                   (matchDetectionsToTracks (options bt) (map (age_track (options bt)) (tracks bt)) dets))))"
  have "map track_id (map (\<lambda>(n, d). new_track d n) xs) = map fst xs"
    for xs :: "(nat \<times> Track) list"
    by (induction xs) (auto simp: new_track_def)
  then have m: "map track_id (map (\<lambda>(n, d). new_track d n) ?new) = map fst ?new" .
  have old: "distinct (map track_id (filter (\<lambda>t. state t \<noteq> deleted) (matched_tracks bt dets)))"
    using assms(2) distinct_map_filter[of track_id "matched_tracks bt dets"]
    by (simp add: ids_distinct_def matched_tracks_ids)
  have bound: "track_id t \<le> track_id_count bt" if "t \<in> set (matched_tracks bt dets)" for t
  proof -
    from that have "track_id t \<in> set (map track_id (matched_tracks bt dets))" by simp
    then have "track_id t \<in> track_id ` set (tracks bt)" by (simp add: matched_tracks_ids)
    with assms(1) show ?thesis by (auto simp: ids_bounded_def)
  qed
  have new: "distinct (map fst ?new)" by simp
  have disj: "track_id ` set (filter (\<lambda>t. state t \<noteq> deleted) (matched_tracks bt dets))
                \<inter> set (map fst ?new) = {}"
    using bound by (fastforce dest!: enumerate_fst_bounds)
  have "map track_id (tracks (fst (update bt dets))) =
          map track_id (filter (\<lambda>t. state t \<noteq> deleted) (matched_tracks bt dets)) @ map fst ?new"
    unfolding update_tracks map_append m ..
  moreover from old new disj
  have "distinct (map track_id (filter (\<lambda>t. state t \<noteq> deleted) (matched_tracks bt dets))
                  @ map fst ?new)"
    unfolding distinct_append set_map by blast
  ultimately show ?thesis by (simp only: ids_distinct_def)
qed

lemma run_ids_distinct:
  "ids_bounded bt \<Longrightarrow> ids_distinct bt \<Longrightarrow> ids_distinct (run bt xs)"
  by (induction xs arbitrary: bt) (simp_all add: update_ids_bounded update_ids_distinct)

lemma new_ids_distinct: "ids_distinct (ByteTracker_new opts)"
  by (simp add: ids_distinct_def ByteTracker_new_def)

lemma update_matched_state:
  assumes "i < length trks"
  shows "state (update_matched dets m trks ! i) = state (trks ! i)
       \<or> state (update_matched dets m trks ! i) = confirmed"
proof (cases m)
  case (Pair d b)
  show ?thesis
  proof (cases "i = b")
    case True
    with assms Pair show ?thesis by (simp add: update_matched_def Let_def)
  next
    case False
    with Pair show ?thesis by (simp add: update_matched_def Let_def)
  qed
qed

lemma fold_update_matched_state:
  assumes "i < length trks"
  shows "state (fold (update_matched dets) ms trks ! i) = state (trks ! i)
       \<or> state (fold (update_matched dets) ms trks ! i) = confirmed"
  using assms
proof (induction ms arbitrary: trks)
  case Nil
  then show ?case by simp
next
  case (Cons m ms)
  from Cons.prems have l: "i < length (update_matched dets m trks)"
    by (simp add: update_matched_length)
  from Cons.IH[OF l] update_matched_state[OF Cons.prems, of dets m]
  show ?case by auto
qed

lemma age_track_state:
  "state (age_track opts t) = state t \<or> state (age_track opts t) = deleted"
  by (simp add: age_track_def Let_def)

text \<open>
  Between calls no track goes back from confirmed to tentative: in a tracker reached from
  a fresh one, a stored confirmed track that the next \<open>update\<close> call returns (a track
  with the same id) is returned as confirmed.
\<close>

theorem confirmed_stays_confirmed:
  assumes reach: "bt = run (ByteTracker_new opts) history"
    and t: "t \<in> set (tracks bt)" "state t = confirmed"
    and t': "t' \<in> set (snd (update bt dets))" "track_id t' = track_id t"
  shows "state t' = confirmed"
proof -
  have ib: "ids_bounded bt" unfolding reach by (rule run_ids_bounded[OF new_ids_bounded])
  have di: "ids_distinct bt"
    unfolding reach by (rule run_ids_distinct[OF new_ids_bounded new_ids_distinct])
  from t(1) ib have kc: "track_id t \<le> track_id_count bt" by (auto simp: ids_bounded_def)
  from t'(1) have st: "t' \<in> set (tracks (fst (update bt dets)))"
    by (simp add: update_returns_stored)
  from surviving_track_cases[OF st] t'(2) kc
  have mem: "t' \<in> set (matched_tracks bt dets)" and nd: "state t' \<noteq> deleted" by auto
  from mem obtain i where i: "i < length (tracks bt)" and ti: "matched_tracks bt dets ! i = t'"
    by (auto simp: in_set_conv_nth matched_tracks_length)
  have "map track_id (matched_tracks bt dets) ! i = map track_id (tracks bt) ! i"
    by (simp add: matched_tracks_ids)
  with i ti t'(2) have ki: "track_id (tracks bt ! i) = track_id t"
    by (simp add: matched_tracks_length)
  from t(1) obtain j where j: "j < length (tracks bt)" "tracks bt ! j = t"
    by (auto simp: in_set_conv_nth)
  with i ki di have "i = j"
    by (simp add: ids_distinct_def distinct_conv_nth) (metis length_map nth_map)
  with j have it: "tracks bt ! i = t" by simp
  let ?aged = "map (age_track (options bt)) (tracks bt)"
  from i have "state (matched_tracks bt dets ! i) = state (?aged ! i)
             \<or> state (matched_tracks bt dets ! i) = confirmed"
    unfolding matched_tracks_def Let_def
    by (intro fold_update_matched_state) simp
  with ti i it have "state t' = state (age_track (options bt) t) \<or> state t' = confirmed"
    by simp
  with age_track_state[of "options bt" t] t(2) nd show ?thesis by auto
qed

text \<open>An instance: the confirmed track of the ball, seen again.\<close>

theorem confirmed_stays_confirmed_witness:
  "run (ByteTracker_new short_buffer) [frame_ball, frame_ball, frame_ball, frame_empty]
     = ball_missed_once
   \<and> map (\<lambda>t. (track_id t, state t)) (tracks ball_missed_once) = [(1, confirmed)]
   \<and> ball_detection\<lparr>track_id := 1, age := 4, hits := 4, state := confirmed\<rparr>
       \<in> set (snd (update ball_missed_once frame_ball))
   \<and> state (ball_detection\<lparr>track_id := 1, age := 4, hits := 4, state := confirmed\<rparr>)
       = confirmed"
proof -
  let ?t = "ball_detection\<lparr>track_id := 1, age := 3, hits := 3,
                                 time_since_update := 1, state := confirmed\<rparr>"
  let ?t' = "ball_detection\<lparr>track_id := 1, age := 4, hits := 4, state := confirmed\<rparr>"
  have a: "?t \<in> set (tracks ball_missed_once)" "state ?t = confirmed"
    by (simp_all add: ball_missed_once_def)
  have b: "?t' \<in> set (snd (update ball_missed_once frame_ball))"
    by (simp add: ball_missed_once_def example_defs tracker_defs upt_conv_Cons)
  have c: "track_id ?t' = track_id ?t" by simp
  have d: "map (\<lambda>t. (track_id t, state t)) (tracks ball_missed_once) = [(1, confirmed)]"
    by (simp add: ball_missed_once_def)
  from confirmed_stays_confirmed[OF run_ball_missed_once[symmetric] a b c] b d
    run_ball_missed_once
  show ?thesis by (intro conjI)
qed

lemma default_first: "fst (update (ByteTracker_new default_options) frame_ball) = ball_tracked"
  using run_ball_tracked by simp

lemma default_second:
  "fst (update ball_tracked frame_ball) =
     ball_tracked\<lparr>tracks := [ball_detection\<lparr>track_id := 1, age := 2, hits := 2\<rparr>]\<rparr>"
  by (simp add: ball_tracked_def example_defs tracker_defs upt_conv_Cons)

lemma default_third:
  "fst (update (ball_tracked\<lparr>tracks := [ball_detection\<lparr>track_id := 1, age := 2, hits := 2\<rparr>]\<rparr>)
          frame_ball) =
     ball_tracked\<lparr>tracks := [ball_detection\<lparr>track_id := 1, age := 3, hits := 3,
                                              state := confirmed\<rparr>]\<rparr>"
  by (simp add: ball_tracked_def example_defs tracker_defs upt_conv_Cons)

text \<open>
  Confirmation: the same detection in three consecutive frames gives a track that is
  tentative at one and two hits and confirmed at three.
\<close>

theorem confirmation_scenario:
  "map (\<lambda>t. (hits t, state t)) (tracks (run (ByteTracker_new default_options) [frame_ball]))
     = [(1, tentative)]
   \<and> map (\<lambda>t. (hits t, state t))
        (tracks (run (ByteTracker_new default_options) [frame_ball, frame_ball]))
     = [(2, tentative)]
   \<and> map (\<lambda>t. (hits t, state t))
        (tracks (run (ByteTracker_new default_options) [frame_ball, frame_ball, frame_ball]))
     = [(3, confirmed)]"
  unfolding run.simps default_first default_second default_third
  by (simp add: ball_tracked_def ball_detection_def)

text \<open>
  Two boxes that do not overlap in consecutive frames (IoU 0, below the matching
  threshold) give two tracks with distinct ids.
\<close>

theorem distinct_tracks_scenario:
  "iou (bbox ball_detection) (bbox far_detection) = Fin 0
   \<and> map track_id (snd (update (run (ByteTracker_new default_options) [frame_ball])
                           [far_detection])) = [1, 2]"
  unfolding run_ball_tracked
  by (simp add: ball_tracked_def far_detection_def example_defs tracker_defs upt_conv_Cons)

subsection \<open>Intersection over union\<close>

text \<open>
  Counterexample to C4 as stated: the box \<open>(0, 0, 0, 0)\<close> with itself has the IoU
  \<open>0 / 0\<close>, which is \<open>NaN\<close> and not 1 (every step is exact in binary64).
\<close>

theorem iou_zero_area_counterexample: "iou (0, 0, 0, 0) (0, 0, 0, 0) = NaN"
  by (simp add: iou_def)

lemma iou_identical:
  assumes "0 < w" "0 < h"
  shows "iou (x, y, w, h) (x, y, w, h) = Fin 1"
  using assms by (simp add: iou_def Let_def)

lemma iou_disjoint:
  assumes pos: "0 < w1" "0 < h1" "0 < w2" "0 < h2"
    and dis: "x1 + w1 \<le> x2 \<or> x2 + w2 \<le> x1 \<or> y1 + h1 \<le> y2 \<or> y2 + h2 \<le> y1"
  shows "iou (x1, y1, w1, h1) (x2, y2, w2, h2) = Fin 0"
proof -
  let ?xl = "max x1 x2" and ?yt = "max y1 y2"
  let ?xr = "min (x1 + w1) (x2 + w2)" and ?yb = "min (y1 + h1) (y2 + h2)"
  from dis have le: "?xr \<le> ?xl \<or> ?yb \<le> ?yt" by auto
  show ?thesis
  proof (cases "?xr < ?xl \<or> ?yb < ?yt")
    case True
    then show ?thesis by (simp add: iou_def Let_def)
  next
    case False
    with le have "?xr = ?xl \<or> ?yb = ?yt" by auto
    then have z: "(?xr - ?xl) * (?yb - ?yt) = 0" by auto
    have "0 < w1 * h1 + w2 * h2" using pos by (simp add: add_pos_pos)
    then have nz: "w1 * h1 + w2 * h2 \<noteq> 0" by simp
    from False have "iou (x1, y1, w1, h1) (x2, y2, w2, h2) =
        num_div (Fin ((?xr - ?xl) * (?yb - ?yt)))
                (Fin (w1 * h1 + w2 * h2 - (?xr - ?xl) * (?yb - ?yt)))"
      by (simp add: iou_def Let_def)
    also have "\<dots> = Fin 0" unfolding z using nz by simp
    finally show ?thesis .
  qed
qed

lemma iou_contains:
  assumes pos: "0 < w2" "0 < h2"
    and inside: "x1 \<le> x2" "y1 \<le> y2" "x2 + w2 \<le> x1 + w1" "y2 + h2 \<le> y1 + h1"
    and half: "w2 * h2 = w1 * h1 / 2"
  shows "iou (x1, y1, w1, h1) (x2, y2, w2, h2) = Fin (1 / 2)"
    and "iou (x2, y2, w2, h2) (x1, y1, w1, h1) = Fin (1 / 2)"
proof -
  have a: "0 < w2 * h2" using pos by simp
  have m: "max x1 x2 = x2" "max y1 y2 = y2" "min (x1 + w1) (x2 + w2) = x2 + w2"
    "min (y1 + h1) (y2 + h2) = y2 + h2" "max x2 x1 = x2" "max y2 y1 = y2"
    "min (x2 + w2) (x1 + w1) = x2 + w2" "min (y2 + h2) (y1 + h1) = y2 + h2"
    using inside by (simp_all add: max_def min_def)
  have u: "w1 * h1 = 2 * (w2 * h2)" using half by simp
  show "iou (x1, y1, w1, h1) (x2, y2, w2, h2) = Fin (1 / 2)"
    using a pos by (simp add: iou_def Let_def m u)
  show "iou (x2, y2, w2, h2) (x1, y1, w1, h1) = Fin (1 / 2)"
    using a pos by (simp add: iou_def Let_def m u)
qed

lemma iou_identical_degenerate:
  assumes "0 \<le> w" "0 \<le> h" "w = 0 \<or> h = 0"
  shows "iou (x, y, w, h) (x, y, w, h) = NaN"
  using assms by (auto simp: iou_def Let_def)

lemma iou_identical_negative:
  assumes "w < 0 \<or> h < 0"
  shows "iou (x, y, w, h) (x, y, w, h) = Fin 0"
  using assms by (auto simp: iou_def Let_def)

text \<open>
  C4, for boxes whose numbers are integers of magnitude at most \<open>2^25\<close>, where the
  code's binary64 arithmetic is exact. With positive width and height: the IoU of a box
  with itself is 1; the IoU of two boxes that do not overlap (they are apart or only
  touch) is 0; and when one box contains a second of half its area, the IoU is 1/2, in
  either argument order. A box with itself has the IoU \<open>NaN\<close> when its width or height
  is zero and neither is negative, and the IoU 0 when its width or height is negative.
\<close>

theorem iou_correctness:
  assumes "pixel_box (x1, y1, w1, h1)" "pixel_box (x2, y2, w2, h2)"
  shows "(0 < w1 \<and> 0 < h1 \<longrightarrow> iou (x1, y1, w1, h1) (x1, y1, w1, h1) = Fin 1)
       \<and> (0 \<le> w1 \<and> 0 \<le> h1 \<and> (w1 = 0 \<or> h1 = 0)
            \<longrightarrow> iou (x1, y1, w1, h1) (x1, y1, w1, h1) = NaN)
       \<and> (w1 < 0 \<or> h1 < 0 \<longrightarrow> iou (x1, y1, w1, h1) (x1, y1, w1, h1) = Fin 0)
       \<and> (0 < w1 \<and> 0 < h1 \<and> 0 < w2 \<and> 0 < h2
            \<and> (x1 + w1 \<le> x2 \<or> x2 + w2 \<le> x1 \<or> y1 + h1 \<le> y2 \<or> y2 + h2 \<le> y1)
            \<longrightarrow> iou (x1, y1, w1, h1) (x2, y2, w2, h2) = Fin 0)
       \<and> (0 < w1 \<and> 0 < h1 \<and> 0 < w2 \<and> 0 < h2
            \<and> x1 \<le> x2 \<and> y1 \<le> y2 \<and> x2 + w2 \<le> x1 + w1 \<and> y2 + h2 \<le> y1 + h1
            \<and> w2 * h2 = w1 * h1 / 2
            \<longrightarrow> iou (x1, y1, w1, h1) (x2, y2, w2, h2) = Fin (1 / 2)
              \<and> iou (x2, y2, w2, h2) (x1, y1, w1, h1) = Fin (1 / 2))"
  using iou_identical[of w1 h1 x1 y1] iou_identical_degenerate[of w1 h1 x1 y1]
    iou_identical_negative[of w1 h1 x1 y1]
    iou_disjoint[where ?w1.0 = w1 and ?h1.0 = h1 and ?w2.0 = w2 and ?h2.0 = h2
      and ?x1.0 = x1 and ?x2.0 = x2 and ?y1.0 = y1 and ?y2.0 = y2]
    iou_contains[where ?w1.0 = w1 and ?h1.0 = h1 and ?w2.0 = w2 and ?h2.0 = h2
      and ?x1.0 = x1 and ?x2.0 = x2 and ?y1.0 = y1 and ?y2.0 = y2]
  by blast

text \<open>
  Witness for C4: a box with itself, two pairs of boxes apart, a half box, a box of zero
  height and a box of negative height.
\<close>

theorem iou_correctness_witness:
  "pixel_box (0, 0, 10, 10) \<and> pixel_box (100, 0, 10, 10) \<and> pixel_box (20, 20, 10, 5)
   \<and> pixel_box (2, 0, 5, 10) \<and> pixel_box (0, 0, 10, 0) \<and> pixel_box (0, 0, 0, - 5)
   \<and> iou (0, 0, 10, 10) (0, 0, 10, 10) = Fin 1
   \<and> iou (0, 0, 10, 10) (100, 0, 10, 10) = Fin 0
   \<and> iou (0, 0, 10, 10) (20, 20, 10, 5) = Fin 0
   \<and> iou (0, 0, 10, 10) (2, 0, 5, 10) = Fin (1 / 2)
   \<and> iou (2, 0, 5, 10) (0, 0, 10, 10) = Fin (1 / 2)
   \<and> iou (0, 0, 10, 0) (0, 0, 10, 0) = NaN
   \<and> iou (0, 0, 0, - 5) (0, 0, 0, - 5) = Fin 0"
proof -
  have p: "pixel_box (0, 0, 10, 10)" "pixel_box (100, 0, 10, 10)" "pixel_box (20, 20, 10, 5)"
    "pixel_box (2, 0, 5, 10)" "pixel_box (0, 0, 10, 0)" "pixel_box (0, 0, 0, - 5)"
    by (simp_all add: pixel_box_def is_integer_def)
  from iou_correctness[OF p(1) p(2)] iou_correctness[OF p(1) p(3)] iou_correctness[OF p(1) p(4)]
    iou_correctness[OF p(5) p(5)] iou_correctness[OF p(6) p(6)] p
  show ?thesis by simp
qed

section \<open>Properties of the shot detector\<close>

text \<open>
  C5. When player and ball are present in the previous and in the current frame, the
  shot flag of \<open>detectShot\<close> is the formula (proximity and speedIncrease) or (proximity
  and directionChange) or (speedIncrease and movingAway) of the four conditions; and any
  other input with player and ball present and the same four conditions gets the same
  flag: the flag is a function of the four booleans.
\<close>

theorem shot_formula:
  assumes "player previousFrame \<noteq> None" "ball previousFrame \<noteq> None"
    and "player currentFrame \<noteq> None" "ball currentFrame \<noteq> None"
  shows "result_isShot (detectShot previousFrame currentFrame trajectory) =
           ((proximity (shot_conditions previousFrame currentFrame trajectory)
               \<and> speedIncrease (shot_conditions previousFrame currentFrame trajectory))
          \<or> (proximity (shot_conditions previousFrame currentFrame trajectory)
               \<and> directionChange (shot_conditions previousFrame currentFrame trajectory))
          \<or> (speedIncrease (shot_conditions previousFrame currentFrame trajectory)
               \<and> movingAway (shot_conditions previousFrame currentFrame trajectory)))
       \<and> (\<forall>previousFrame' currentFrame' trajectory'.
             player previousFrame' \<noteq> None \<and> ball previousFrame' \<noteq> None
             \<and> player currentFrame' \<noteq> None \<and> ball currentFrame' \<noteq> None
             \<and> shot_conditions previousFrame' currentFrame' trajectory'
                 = shot_conditions previousFrame currentFrame trajectory
             \<longrightarrow> result_isShot (detectShot previousFrame' currentFrame' trajectory')
                 = result_isShot (detectShot previousFrame currentFrame trajectory))"
  using assms by (auto simp: detectShot_def Let_def)

text \<open>
  Witness for C5: the ball was 50 pixels from the player, now moves at 20 and away from
  the player; the trajectory memory is empty. Three conditions hold and a shot is flagged.
\<close>

theorem shot_formula_witness:
  "shot_conditions
      ((example_frame 0 0 (500, 500) (530, 540))\<lparr>distancePlayerToBall := Some (Fin 50)\<rparr>)
      ((example_frame 1 1 (500, 500) (800, 900))\<lparr>ballSpeed := Some (Fin 20)\<rparr>) []
     = \<lparr>proximity = True, speedIncrease = True, directionChange = False, movingAway = True\<rparr>
   \<and> result_isShot (detectShot
      ((example_frame 0 0 (500, 500) (530, 540))\<lparr>distancePlayerToBall := Some (Fin 50)\<rparr>)
      ((example_frame 1 1 (500, 500) (800, 900))\<lparr>ballSpeed := Some (Fin 20)\<rparr>) [])"
proof -
  let ?p = "(example_frame 0 0 (500, 500) (530, 540))\<lparr>distancePlayerToBall := Some (Fin 50)\<rparr>"
  let ?c = "(example_frame 1 1 (500, 500) (800, 900))\<lparr>ballSpeed := Some (Fin 20)\<rparr>"
  have c: "shot_conditions ?p ?c [] =
      \<lparr>proximity = True, speedIncrease = True, directionChange = False, movingAway = True\<rparr>"
    by (simp add: shot_conditions_def example_frame_def example_box_def or_else_def num_gt_def
        hasChangedDirection_def isMovingAwayFromPlayer_def SHOT_DETECTION_DISTANCE_THRESHOLD_def
        SHOT_DETECTION_SPEED_THRESHOLD_def)
  have h: "player ?p \<noteq> None" "ball ?p \<noteq> None" "player ?c \<noteq> None" "ball ?c \<noteq> None"
    by (simp_all add: example_frame_def)
  from shot_formula[OF h, of "[]", THEN conjunct1] c show ?thesis by simp
qed

section \<open>Properties of the movement statistics and of the speed\<close>

lemma stats_step_events:
  "events (loop_stats (stats_step prev cur s)) =
     events (loop_stats s) @
       [\<lparr>event_kind = detect_event (step_speed prev cur)
                        \<bar>step_direction prev cur - prevDirection s\<bar>,
         event_timestamp = coord_timestamp cur\<rparr>]"
  by (simp add: stats_step_def Let_def)

lemma stats_step_prevDirection: "prevDirection (stats_step prev cur s) = step_direction prev cur"
  by (simp add: stats_step_def Let_def)

lemma stats_loop_events:
  "events (loop_stats (stats_loop prev cs s)) =
     events (loop_stats s) @ pair_events (prevDirection s) prev cs"
  by (induction cs arbitrary: prev s)
     (simp_all add: stats_step_events stats_step_prevDirection)

lemma pair_events_length: "length (pair_events d prev cs) = length cs"
  by (induction cs arbitrary: d prev) simp_all

lemma pair_events_nth:
  "i < length cs \<Longrightarrow>
   pair_events d prev cs ! i =
     \<lparr>event_kind =
        detect_event (step_speed ((prev # cs) ! i) (cs ! i))
          \<bar>step_direction ((prev # cs) ! i) (cs ! i)
            - (if i = 0 then d else step_direction ((prev # cs) ! (i - 1)) ((prev # cs) ! i))\<bar>,
      event_timestamp = coord_timestamp (cs ! i)\<rparr>"
proof (induction cs arbitrary: d prev i)
  case Nil
  then show ?case by simp
next
  case (Cons c cs)
  show ?case
  proof (cases i)
    case 0
    then show ?thesis by simp
  next
    case (Suc j)
    with Cons.prems have j: "j < length cs" by simp
    show ?thesis
    proof (cases j)
      case 0
      with Cons.IH[OF j, of "step_direction prev c" c] Suc show ?thesis by simp
    next
      case (Suc k)
      with Cons.IH[OF j, of "step_direction prev c" c] \<open>i = Suc j\<close> show ?thesis by simp
    qed
  qed
qed

lemma calculateStats_events:
  "events (calculateStats (first # rest)) = pair_events 0 first rest"
  by (cases rest)
     (simp_all add: calculateStats_def Let_def stats_loop_events empty_stats_def
        stats_step_events stats_step_prevDirection)

text \<open>
  \<open>calculateStats\<close> emits one event for every pair of consecutive samples, at the later
  sample's timestamp: each iteration of the loop ends in one of the four branches, and
  each of them pushes an event.
\<close>

theorem one_event_per_pair:
  "length (events (calculateStats coordinates)) = length coordinates - 1
   \<and> (\<forall>i. Suc i < length coordinates \<longrightarrow>
         event_timestamp (events (calculateStats coordinates) ! i)
           = coord_timestamp (coordinates ! Suc i))"
proof (cases coordinates)
  case Nil
  then show ?thesis by (simp add: calculateStats_def empty_stats_def)
next
  case (Cons first rest)
  show ?thesis
    unfolding Cons calculateStats_events
    by (simp add: pair_events_length pair_events_nth)
qed

lemma sqrt_25: "sqrt 25 = 5"
  using real_sqrt_abs[of 5] by simp

lemma sqrt_100: "sqrt 100 = 10"
  using real_sqrt_abs[of 10] by simp

text \<open>
  C6 does not hold of the code. Two samples 5 m apart with the same timestamp 1000:
  \<open>calculateSpeed\<close> with zero elapsed time returns \<open>Infinity\<close>, and
  \<open>calculateStats\<close> does not skip the pair: \<open>timeDiff\<close> is \<open>(1000 - 1000) / 1000 = 0\<close>,
  the speed \<open>5 / 0\<close> is \<open>Infinity\<close>, which becomes the maximum and the average speed of
  the statistics, and the pair is reported as a sprint. The numbers of this input (3, 4,
  25, 5, 0) are computed without rounding.
\<close>

theorem zero_elapsed_time_not_skipped:
  "calculateSpeed 0 0 3 4 0 1 = PInf
   \<and> maxSpeed (calculateStats [example_point 0 0 1000, example_point 300 400 1000]) = PInf
   \<and> avgSpeed (calculateStats [example_point 0 0 1000, example_point 300 400 1000]) = PInf
   \<and> map event_kind
         (events (calculateStats [example_point 0 0 1000, example_point 300 400 1000]))
       = [sprint]"
  by (simp add: calculateSpeed_def calculateDistance_def calculateStats_def stats_step_def
      step_speed_def step_distance_def detect_event_def num_gt_def empty_stats_def
      example_point_def PIXELS_PER_METER_def SPRINT_THRESHOLD_def sqrt_25 inf_times_def Let_def)

text \<open>
  C7 does not hold of \<open>calculateStats\<close>. Three samples 100 ms apart, 10 m from one to
  the next: two sprint events are emitted, at 100 ms and at 200 ms. The second is no
  rising edge, the speed of the pair before it was above the threshold already, and it
  comes 100 ms after the first.
\<close>

theorem sprint_without_rising_edge:
  "map (\<lambda>e. (event_kind e, event_timestamp e))
     (events (calculateStats [example_point 0 0 0, example_point 1000 0 100,
                              example_point 2000 0 200]))
   = [(sprint, 100), (sprint, 200)]"
  by (simp add: calculateStats_def stats_step_def
      step_speed_def step_distance_def detect_event_def num_gt_def empty_stats_def
      example_point_def PIXELS_PER_METER_def SPRINT_THRESHOLD_def sqrt_100 Let_def)

text \<open>Three samples give two events, the second at the third sample's timestamp.\<close>

theorem one_event_per_pair_witness:
  "length (events (calculateStats [example_point 0 0 0, example_point 1000 0 100,
                                   example_point 2000 0 200])) = 2
   \<and> event_timestamp (events (calculateStats [example_point 0 0 0, example_point 1000 0 100,
                                       example_point 2000 0 200]) ! 1) = 200"
  using one_event_per_pair[of "[example_point 0 0 0, example_point 1000 0 100,
                                       example_point 2000 0 200]"]
  by (simp add: example_point_def)

section \<open>Properties of the movement analysis endpoint\<close>

lemma detect_movement_debounce:
  "detect_movement i speed prev_speed direction prev_direction acceleration gap = Some ty
   \<Longrightarrow> 500 < gap"
  by (simp add: detect_movement_def split: if_splits)

lemma detect_movement_sprint:
  "detect_movement i speed prev_speed direction prev_direction acceleration gap = Some sprint_ev
   \<longleftrightarrow> 50 < speed \<and> prev_speed < 40 \<and> 500 < gap"
  by (auto simp: detect_movement_def)

lemma spaced_snoc:
  assumes "spaced gap evs" "evs \<noteq> []" "gap < ev_time e - ev_time (last evs)"
  shows "spaced gap (evs @ [e])"
  unfolding spaced_def
proof (intro allI impI)
  fix k
  assume k: "Suc k < length (evs @ [e])"
  show "gap < ev_time ((evs @ [e]) ! Suc k) - ev_time ((evs @ [e]) ! k)"
  proof (cases "Suc k < length evs")
    case True
    with assms(1) show ?thesis by (simp add: spaced_def nth_append)
  next
    case False
    with k have "k = length evs - 1" "k < length evs" by simp_all
    with assms(2,3) show ?thesis by (simp add: nth_append last_conv_nth)
  qed
qed

text \<open>
  What the loop keeps: there is an event, \<open>lastEventTime\<close> is the time of the last
  event, and the events are more than 500 ms apart.
\<close>

lemma movement_step_spaced:
  assumes "mv_events s \<noteq> []" "ev_time (last (mv_events s)) = mv_lastEventTime s"
    "spaced 500 (mv_events s)"
  shows "mv_events (movement_step i prev cur s) \<noteq> []
       \<and> ev_time (last (mv_events (movement_step i prev cur s)))
           = mv_lastEventTime (movement_step i prev cur s)
       \<and> spaced 500 (mv_events (movement_step i prev cur s))"
proof (cases "(rc_timestamp cur - rc_timestamp prev) / 1000 \<le> 0")
  case True
  with assms show ?thesis by (simp add: movement_step_def)
next
  case False
  define dx where "dx = (rc_x cur + rc_width cur / 2) - (rc_x prev + rc_width prev / 2)"
  define dy where "dy = (rc_y cur + rc_height cur / 2) - (rc_y prev + rc_height prev / 2)"
  define speed where
    "speed = sqrt (dx * dx + dy * dy) / ((rc_timestamp cur - rc_timestamp prev) / 1000)"
  define detected where
    "detected = detect_movement i speed (mv_prevSpeed s) (move_direction dx dy)
       (mv_prevDirection s)
       ((speed - mv_prevSpeed s) / ((rc_timestamp cur - rc_timestamp prev) / 1000))
       (rc_timestamp cur - mv_lastEventTime s)"
  have ev: "mv_events (movement_step i prev cur s) =
              (case detected of None \<Rightarrow> mv_events s
               | Some ty \<Rightarrow> mv_events s @ [\<lparr>ev_type = ty, ev_time = rc_timestamp cur\<rparr>])"
    and lt: "mv_lastEventTime (movement_step i prev cur s) =
              (case detected of None \<Rightarrow> mv_lastEventTime s | Some ty \<Rightarrow> rc_timestamp cur)"
    using False by (simp_all add: movement_step_def Let_def detected_def speed_def dx_def dy_def)
  show ?thesis
  proof (cases detected)
    case None
    with ev lt assms show ?thesis by simp
  next
    case (Some ty)
    then have "500 < rc_timestamp cur - mv_lastEventTime s"
      unfolding detected_def by (rule detect_movement_debounce)
    with assms have "spaced 500 (mv_events s @ [\<lparr>ev_type = ty, ev_time = rc_timestamp cur\<rparr>])"
      by (intro spaced_snoc) simp_all
    with ev lt Some show ?thesis by simp
  qed
qed

lemma movement_loop_spaced:
  assumes "mv_events s \<noteq> []" "ev_time (last (mv_events s)) = mv_lastEventTime s"
    "spaced 500 (mv_events s)"
  shows "spaced 500 (mv_events (movement_loop i prev cs s))"
  using assms
proof (induction cs arbitrary: i prev s)
  case Nil
  then show ?case by simp
next
  case (Cons c cs)
  from movement_step_spaced[OF Cons.prems, of i prev c]
  show ?case by (simp add: Cons.IH)
qed

text \<open>
  \<open>calculateMovement\<close> has a debounce time: two consecutive events of its result are
  more than 500 ms apart, so that no window of 500 ms holds two events. (An event is
  pushed only where \<open>curr.timestamp - lastEventTime\<close>, rounded, exceeds 500 or 1000; then
  the exact difference exceeds 500 too.)
\<close>

theorem calculateMovement_debounce:
  "spaced 500 (md_events (calculateMovement coordinates))"
proof (cases coordinates)
  case Nil
  then show ?thesis by (simp add: calculateMovement_def spaced_def)
next
  case (Cons first more)
  show ?thesis
  proof (cases more)
    case Nil
    with Cons show ?thesis by (simp add: calculateMovement_def spaced_def)
  next
    case (Cons second rest)
    have "spaced 500 (mv_events (movement_loop 1 first (second # rest)
                    \<lparr>mv_totalDistance = 0, mv_maxSpeed = 0, mv_prevSpeed = 0,
                     mv_prevDirection = [], mv_lastEventTime = rc_timestamp first,
                     mv_events = [\<lparr>ev_type = start_ev, ev_time = rc_timestamp first\<rparr>]\<rparr>))"
      by (rule movement_loop_spaced) (simp_all add: spaced_def)
    with Cons \<open>coordinates = first # more\<close> show ?thesis
      by (simp add: calculateMovement_def Let_def)
  qed
qed

text \<open>
  One iteration of the loop of \<open>calculateMovement\<close>. A pair of samples with equal
  timestamps is skipped: it changes none of the loop's variables. An iteration pushes at
  most one event. When it pushes a sprint event, the event has the time of the later
  sample, the time difference of the pair is positive, the speed of the pair before was
  below 40 (a rising edge) and more than 500 ms have passed since the last event.
\<close>

theorem movement_step_sprint:
  "(rc_timestamp cur = rc_timestamp prev \<longrightarrow> movement_step i prev cur s = s)
   \<and> length (mv_events (movement_step i prev cur s)) \<le> Suc (length (mv_events s))
   \<and> (mv_events (movement_step i prev cur s)
        = mv_events s @ [\<lparr>ev_type = sprint_ev, ev_time = t\<rparr>]
      \<longrightarrow> t = rc_timestamp cur
          \<and> rc_timestamp prev < rc_timestamp cur
          \<and> mv_prevSpeed s < 40
          \<and> 500 < rc_timestamp cur - mv_lastEventTime s)"
proof (intro conjI impI)
  show "movement_step i prev cur s = s" if "rc_timestamp cur = rc_timestamp prev"
    using that by (simp add: movement_step_def)
  show "length (mv_events (movement_step i prev cur s)) \<le> Suc (length (mv_events s))"
    by (simp add: movement_step_def Let_def split: option.splits)
next
  assume a: "mv_events (movement_step i prev cur s)
        = mv_events s @ [\<lparr>ev_type = sprint_ev, ev_time = t\<rparr>]"
  have pos: "\<not> (rc_timestamp cur - rc_timestamp prev) / 1000 \<le> 0"
  proof
    assume "(rc_timestamp cur - rc_timestamp prev) / 1000 \<le> 0"
    then have "movement_step i prev cur s = s" by (simp add: movement_step_def)
    with a show False by simp
  qed
  define dx where "dx = (rc_x cur + rc_width cur / 2) - (rc_x prev + rc_width prev / 2)"
  define dy where "dy = (rc_y cur + rc_height cur / 2) - (rc_y prev + rc_height prev / 2)"
  define speed where
    "speed = sqrt (dx * dx + dy * dy) / ((rc_timestamp cur - rc_timestamp prev) / 1000)"
  define detected where
    "detected = detect_movement i speed (mv_prevSpeed s) (move_direction dx dy)
       (mv_prevDirection s)
       ((speed - mv_prevSpeed s) / ((rc_timestamp cur - rc_timestamp prev) / 1000))
       (rc_timestamp cur - mv_lastEventTime s)"
  have ev: "mv_events (movement_step i prev cur s) =
              (case detected of None \<Rightarrow> mv_events s
               | Some ty \<Rightarrow> mv_events s @ [\<lparr>ev_type = ty, ev_time = rc_timestamp cur\<rparr>])"
    using pos by (simp add: movement_step_def Let_def detected_def speed_def dx_def dy_def)
  from a have d: "detected = Some sprint_ev" and t: "t = rc_timestamp cur"
    unfolding ev by (cases detected; simp)+
  from d have "50 < speed \<and> mv_prevSpeed s < 40 \<and> 500 < rc_timestamp cur - mv_lastEventTime s"
    unfolding detected_def by (simp only: detect_movement_sprint)
  with t pos show "t = rc_timestamp cur" "rc_timestamp prev < rc_timestamp cur"
    "mv_prevSpeed s < 40" "500 < rc_timestamp cur - mv_lastEventTime s"
    by simp_all
qed

lemma sqrt_10000: "sqrt 10000 = 100"
  using real_sqrt_abs[of 100] by simp

lemma sqrt_1000000: "sqrt 1000000 = 1000"
  using real_sqrt_abs[of 1000] by simp

text \<open>
  \<open>calculateMovement\<close> on three inputs. A player who moves 100 pixels in the first
  second and the same in the second: one sprint event, at the rising edge. Two samples
  with the same timestamp: the pair is skipped, the maximum speed and the distance stay
  0. Three samples 100 ms apart at 10000 pixels per second: no sprint event, as no more
  than 500 ms have passed since the start event.
\<close>

theorem calculateMovement_scenario:
  "md_events (calculateMovement [route_point 0 0 0, route_point 100 0 1000,
                                  route_point 200 0 2000])
     = [\<lparr>ev_type = start_ev, ev_time = 0\<rparr>, \<lparr>ev_type = sprint_ev, ev_time = 1000\<rparr>]
   \<and> calculateMovement [route_point 0 0 1000, route_point 300 400 1000]
     = \<lparr>md_maxSpeed = 0, md_distance = 0,
        md_events = [\<lparr>ev_type = start_ev, ev_time = 1000\<rparr>]\<rparr>
   \<and> md_events (calculateMovement [route_point 0 0 0, route_point 1000 0 100,
                                    route_point 2000 0 200])
     = [\<lparr>ev_type = start_ev, ev_time = 0\<rparr>]"
  by (simp add: calculateMovement_def movement_step_def detect_movement_def
      move_direction_def route_point_def sqrt_10000 sqrt_1000000 Let_def)

text \<open>The two events of the first of these inputs are 1000 ms apart.\<close>

theorem calculateMovement_debounce_witness:
  "500 < ev_time (md_events (calculateMovement [route_point 0 0 0, route_point 100 0 1000,
                                  route_point 200 0 2000]) ! 1)
         - ev_time (md_events (calculateMovement [route_point 0 0 0, route_point 100 0 1000,
                                  route_point 200 0 2000]) ! 0)"
  using calculateMovement_debounce[of "[route_point 0 0 0, route_point 100 0 1000,
                                  route_point 200 0 2000]", unfolded spaced_def, THEN spec, of 0]
  by (simp add: calculateMovement_def movement_step_def detect_movement_def
      move_direction_def route_point_def sqrt_10000 Let_def)

text \<open>
  Two iterations from the initial state of the loop: two samples with the same timestamp,
  and two samples one second and 100 pixels apart, which give a sprint event.
\<close>

theorem movement_step_sprint_witness:
  "movement_step 1 (route_point 0 0 1000) (route_point 100 0 1000)
     \<lparr>mv_totalDistance = 0, mv_maxSpeed = 0, mv_prevSpeed = 0, mv_prevDirection = [],
      mv_lastEventTime = 1000, mv_events = [\<lparr>ev_type = start_ev, ev_time = 1000\<rparr>]\<rparr>
   = \<lparr>mv_totalDistance = 0, mv_maxSpeed = 0, mv_prevSpeed = 0, mv_prevDirection = [],
      mv_lastEventTime = 1000, mv_events = [\<lparr>ev_type = start_ev, ev_time = 1000\<rparr>]\<rparr>
   \<and> mv_events (movement_step 1 (route_point 0 0 0) (route_point 100 0 1000)
       \<lparr>mv_totalDistance = 0, mv_maxSpeed = 0, mv_prevSpeed = 0, mv_prevDirection = [],
        mv_lastEventTime = 0, mv_events = [\<lparr>ev_type = start_ev, ev_time = 0\<rparr>]\<rparr>)
     = [\<lparr>ev_type = start_ev, ev_time = 0\<rparr>, \<lparr>ev_type = sprint_ev, ev_time = 1000\<rparr>]
   \<and> mv_prevSpeed \<lparr>mv_totalDistance = 0, mv_maxSpeed = 0, mv_prevSpeed = 0,
        mv_prevDirection = [], mv_lastEventTime = 0,
        mv_events = [\<lparr>ev_type = start_ev, ev_time = 0\<rparr>]\<rparr> < 40"
  using movement_step_sprint[of "route_point 100 0 1000" "route_point 0 0 1000" 1
      "\<lparr>mv_totalDistance = 0, mv_maxSpeed = 0, mv_prevSpeed = 0, mv_prevDirection = [],
        mv_lastEventTime = 1000, mv_events = [\<lparr>ev_type = start_ev, ev_time = 1000\<rparr>]\<rparr>"]
    movement_step_sprint[of "route_point 100 0 1000" "route_point 0 0 0" 1
      "\<lparr>mv_totalDistance = 0, mv_maxSpeed = 0, mv_prevSpeed = 0, mv_prevDirection = [],
        mv_lastEventTime = 0, mv_events = [\<lparr>ev_type = start_ev, ev_time = 0\<rparr>]\<rparr>" 1000]
  by (simp add: route_point_def movement_step_def detect_movement_def move_direction_def
      sqrt_10000 Let_def)

subsection \<open>Kinematics\<close>

text \<open>
  The distance and the speed are symmetric in the two points: the differences of the
  coordinates only change their sign, and they are squared.
\<close>

theorem kinematics_symmetry:
  "calculateDistance x1 y1 x2 y2 p = calculateDistance x2 y2 x1 y1 p
   \<and> calculateSpeed x1 y1 x2 y2 timeDiff p = calculateSpeed x2 y2 x1 y1 timeDiff p"
  by (simp add: calculateDistance_def calculateSpeed_def Let_def power2_commute)

section \<open>Properties of the aggregation\<close>

lemma fold_count_cell:
  "fold count_cell row (c, t) = (c + length (filter (\<lambda>cell. cell \<noteq> 0) row), t + length row)"
  by (induction row arbitrary: c t) (simp_all add: count_cell_def)

lemma fold_count_rows:
  "fold (\<lambda>row acc. fold count_cell row acc) heatmap (c, t) =
     (c + length (filter (\<lambda>cell. cell \<noteq> 0) (concat heatmap)), t + length (concat heatmap))"
  by (induction heatmap arbitrary: c t) (simp_all add: fold_count_cell)

lemma square_grid_cells: "square_grid n grid \<Longrightarrow> length (concat grid) = n * n"
proof -
  assume a: "square_grid n grid"
  then have "map length grid = replicate n n"
    by (auto simp: square_grid_def map_replicate_const[symmetric] intro!: map_cong)
  then show ?thesis by (simp add: length_concat sum_list_replicate)
qed

lemma square_grid_update:
  assumes "square_grid n grid"
  shows "square_grid n (grid[r := (grid ! r)[c := v]])"
proof (cases "r < length grid")
  case True
  with assms have "length ((grid ! r)[c := v]) = n"
    by (simp add: square_grid_def)
  moreover have "set (grid[r := (grid ! r)[c := v]]) \<subseteq> insert ((grid ! r)[c := v]) (set grid)"
    by (rule set_update_subset_insert)
  ultimately show ?thesis
    using assms unfolding square_grid_def by auto
next
  case False
  with assms show ?thesis by (simp add: list_update_beyond)
qed

lemma heatmap_step_square:
  assumes "square_grid n grid" "heatmap_step n frame (Inr grid) = Inr grid'"
  shows "square_grid n grid'"
  using assms
  by (auto simp: heatmap_step_def Let_def square_grid_update split: option.splits)

lemma heatmap_step_error: "heatmap_step n frame (Inl e) = Inl e"
  by (simp add: heatmap_step_def)

lemma fold_heatmap_step_error: "fold (heatmap_step n) frames (Inl e) = Inl e"
  by (induction frames) (simp_all add: heatmap_step_error)

lemma fold_heatmap_step_square:
  assumes "square_grid n grid" "fold (heatmap_step n) frames (Inr grid) = Inr grid'"
  shows "square_grid n grid'"
  using assms
proof (induction frames arbitrary: grid)
  case Nil
  then show ?case by simp
next
  case (Cons f frames)
  show ?case
  proof (cases "heatmap_step n f (Inr grid)")
    case (Inl e)
    with Cons.prems(2) show ?thesis by (simp add: fold_heatmap_step_error)
  next
    case (Inr g)
    with Cons.prems have "square_grid n g" by (auto dest: heatmap_step_square)
    with Cons.IH[of g] Cons.prems(2) Inr show ?thesis by simp
  qed
qed

lemma generatePositionHeatmap_square:
  assumes "generatePositionHeatmap frames n = Inr grid"
  shows "square_grid n grid"
  using assms unfolding generatePositionHeatmap_def
  by (rule fold_heatmap_step_square[rotated]) (simp add: square_grid_def)

text \<open>
  When \<open>generateAnalysisResult\<close> returns, the heatmap of its result is a grid of 10 rows
  of 10 cells, 100 cells in all.
\<close>

theorem heatmap_is_grid:
  assumes "generateAnalysisResult frames metadata pixelsToMeters = Inr r"
  shows "square_grid 10 (positionHeatmap (playerStats r))
       \<and> length (concat (positionHeatmap (playerStats r))) = 100"
proof -
  from assms obtain heatmap where h: "generatePositionHeatmap frames 10 = Inr heatmap"
    by (cases "generatePositionHeatmap frames 10") (simp_all add: generateAnalysisResult_def Let_def)
  from assms h have p: "positionHeatmap (playerStats r) = heatmap"
    by (auto simp: generateAnalysisResult_def Let_def split: sum.splits)
  from generatePositionHeatmap_square[OF h] show ?thesis
    unfolding p by (simp add: square_grid_cells)
qed

lemma sqrt_2500: "sqrt 2500 = 50"
  using real_sqrt_abs[of 50] by simp

lemma grid_500: "grid_coordinate 10 500 1000 = Fin 5"
  by (simp add: grid_coordinate_def)
lemma grid_510: "grid_coordinate 10 510 1000 = Fin 5"
  by (simp add: grid_coordinate_def)
lemma grid_530: "grid_coordinate 10 530 1000 = Fin 5"
  by (simp add: grid_coordinate_def)
lemma index_5: "array_index (Fin 5) 10 = Some 5"
  by (simp add: array_index_def)

lemma example_heatmap:
  "generatePositionHeatmap example_frames 10 =
     Inr ((replicate 10 (replicate 10 0))[5 := (replicate 10 0)[5 := 3]])"
  by (simp add: generatePositionHeatmap_def example_frames_def speed_frame_def example_frame_def
      example_box_def heatmap_step_def grid_500 grid_510 grid_530 index_5 numeral_3_eq_3)

lemma example_totals:
  "fold totals_step example_frames no_totals =
     no_totals\<lparr>totalPlayerSpeed := Fin 30, maxPlayerSpeed := Fin 20\<rparr>"
  by (simp add: example_frames_def speed_frame_def example_frame_def totals_step_def no_totals_def)

lemma example_totals_fields:
  "shots (fold totals_step example_frames no_totals) = 0"
  "totalPlayerSpeed (fold totals_step example_frames no_totals) = Fin 30"
  "maxPlayerSpeed (fold totals_step example_frames no_totals) = Fin 20"
  unfolding example_totals by (simp_all add: no_totals_def)

lemma example_frames_not_empty: "example_frames \<noteq> []"
  by (simp add: example_frames_def)

lemma example_shot_heatmap:
  "generatePositionHeatmap example_frames_shot 10 =
     Inr ((replicate 10 (replicate 10 0))[5 := (replicate 10 0)[5 := 3]])"
  by (simp add: generatePositionHeatmap_def example_frames_shot_def speed_frame_def
      example_frame_def example_box_def heatmap_step_def grid_500 grid_510 grid_530 index_5
      numeral_3_eq_3)

lemma example_shot_totals:
  "shots (fold totals_step example_frames_shot no_totals) = 1"
  "totalPlayerSpeed (fold totals_step example_frames_shot no_totals) = Fin 30"
  by (simp_all add: example_frames_shot_def speed_frame_def example_frame_def totals_step_def
      count_shot_type_def count_ball_speed_def truthy_string_def no_totals_def)

lemma example_average_without_shot:
  "(case generateAnalysisResult example_frames example_metadata 1 of
      Inl e \<Rightarrow> False
    | Inr r \<Rightarrow> averageSpeed (playerStats r) = Fin 0 \<and> player_maxSpeed (playerStats r) = Fin 20)"
  by (simp add: generateAnalysisResult_def Let_def example_heatmap example_totals_fields
      example_frames_not_empty calculateCourtCoverage_def split: prod.splits)

lemma example_shot_length:
  "example_frames_shot \<noteq> []" "length example_frames_shot = 3"
  by (simp_all add: example_frames_shot_def)

lemma example_average_with_shot:
  "(case generateAnalysisResult example_frames_shot example_metadata 1 of
      Inl e \<Rightarrow> False
    | Inr r \<Rightarrow> averageSpeed (playerStats r) = Fin 10)"
  by (simp add: generateAnalysisResult_def Let_def example_shot_heatmap example_shot_totals
      example_shot_length calculateCourtCoverage_def split: prod.splits)

text \<open>
  C8. The claim: the average speed is the mean of the speed samples of the consecutive
  pairs, whether or not a shot was detected. \<open>generateAnalysisResult\<close> on three frames
  with the player speeds 0 (the first frame, no pair), 10 and 20 and no shot: the maximum
  speed is 20 and the average speed is 0, as the average is computed only when
  \<open>shotsHit > 0\<close>. With the last frame flagged as a shot the average is 10: the sum 30
  divided by the three frames, not by the two samples, whose mean is 15.
\<close>

theorem average_speed_without_shot:
  "map playerSpeed example_frames = [Some (Fin 0), Some (Fin 10), Some (Fin 20)]
   \<and> map isShot example_frames = [Some False, Some False, Some False]
   \<and> (case generateAnalysisResult example_frames example_metadata 1 of
         Inl e \<Rightarrow> False
       | Inr r \<Rightarrow> averageSpeed (playerStats r) = Fin 0 \<and> player_maxSpeed (playerStats r) = Fin 20)
   \<and> map playerSpeed example_frames_shot = map playerSpeed example_frames
   \<and> map isShot example_frames_shot = [Some False, Some False, Some True]
   \<and> (case generateAnalysisResult example_frames_shot example_metadata 1 of
         Inl e \<Rightarrow> False
       | Inr r \<Rightarrow> averageSpeed (playerStats r) = Fin 10)"
proof -
  have "map playerSpeed example_frames = [Some (Fin 0), Some (Fin 10), Some (Fin 20)]"
    and "map isShot example_frames = [Some False, Some False, Some False]"
    and "map playerSpeed example_frames_shot = map playerSpeed example_frames"
    and "map isShot example_frames_shot = [Some False, Some False, Some True]"
    by (simp_all add: example_frames_def example_frames_shot_def speed_frame_def)
  with example_average_without_shot example_average_with_shot show ?thesis
    by (intro conjI)
qed

lemma example_cells:
  "length (filter (\<lambda>cell. cell \<noteq> 0)
     (concat ((replicate 10 (replicate 10 0))[5 := (replicate 10 (0::nat))[5 := 3]]))) = 1"
  by (simp add: eval_nat_numeral)

lemma example_cells_total:
  "length (concat ((replicate 10 (replicate 10 0))[5 := (replicate 10 (0::nat))[5 := 3]])) = 100"
  by (simp add: eval_nat_numeral)

lemma example_coverage_value:
  "calculateCourtCoverage example_frames 10 = Inr (Fin 1)"
  using fold_count_rows[of "(replicate 10 (replicate 10 0))[5 := (replicate 10 (0::nat))[5 := 3]]" 0 0]
  unfolding example_cells example_cells_total
  by (simp add: calculateCourtCoverage_def example_heatmap)

lemma example_coverage:
  "(case generateAnalysisResult example_frames example_metadata 1 of
      Inl e \<Rightarrow> False
    | Inr r \<Rightarrow>
        positionHeatmap (playerStats r) =
          (replicate 10 (replicate 10 0))[5 := (replicate 10 0)[5 := 3]]
        \<and> courtCoverage r = Fin 1)"
  by (simp add: generateAnalysisResult_def Let_def example_heatmap example_coverage_value)

lemma index_8: "array_index (Fin 8) 10 = Some 8"
  by (simp add: array_index_def)

lemma index_9: "array_index (Fin 9) 10 = Some 9"
  by (simp add: array_index_def)

lemma example_ball_heatmap:
  "\<exists>grid. createHeatmap (ball_positions example_advanced_frames) 1000 1000 = Inr grid"
  by (simp add: createHeatmap_def createHeatmap_step_def ball_positions_def
      example_advanced_frames_def example_box_def index_8 index_9)

lemma example_player_stats:
  "player_stats example_advanced_frames example_metadata 1 ''player1'' =
     Inr \<lparr>stats_id = ''player1'', adv_averageSpeed = Fin 180, adv_maxSpeed = Fin 180,
          adv_totalDistanceCovered = 50,
          adv_positionHeatmap = (replicate 10 (replicate 10 0))[5 := (replicate 10 0)[5 := 2]]\<rparr>"
  by (simp add: example_advanced_frames_def example_player_def example_metadata_def
      player_stats_def find_player_def createHeatmap_def createHeatmap_step_def index_5
      adv_calculateSpeed_def adv_calculateDistance_def sum_of_def max_of_def Let_def
      numeral_2_eq_2 sqrt_2500)

lemma example_player_ids: "player_ids example_advanced_frames = [''player1'']"
  by (simp add: player_ids_def add_id_def example_advanced_frames_def example_player_def)

lemma example_metadata_size:
  "video_width example_metadata = 1000" "video_height example_metadata = 1000"
  by (simp_all add: example_metadata_def)

lemma example_advanced_result:
  "(case generateAdvancedAnalysisResult example_advanced_frames example_metadata 1 of
      Inl e \<Rightarrow> False
    | Inr r \<Rightarrow>
        adv_positionHeatmap (adv_playerStats r) =
            (replicate 10 (replicate 10 0))[5 := (replicate 10 0)[5 := 2]]
        \<and> adv_courtCoverage r = Fin 75)"
proof -
  from example_ball_heatmap obtain grid where
    "createHeatmap (ball_positions example_advanced_frames) 1000 1000 = Inr grid" by blast
  then show ?thesis
    unfolding generateAdvancedAnalysisResult_def example_player_ids example_metadata_size
    by (simp add: example_player_stats Let_def)
qed

lemma example_cells_2:
  "length (filter (\<lambda>cell. cell \<noteq> 0)
     (concat ((replicate 10 (replicate 10 0))[5 := (replicate 10 (0::nat))[5 := 2]]))) = 1"
  by (simp add: eval_nat_numeral)

text \<open>
  C9 does not hold of \<open>generateAdvancedAnalysisResult\<close>. Two frames of one player in one
  cell of the grid: the heatmap of the result has one nonzero cell of 100, which is a
  coverage of 1 percent, and the reported coverage is 75. \<open>generateAnalysisResult\<close> on
  three frames of a player in the same cell reports the coverage 1.
\<close>

theorem court_coverage_constant:
  "(case generateAdvancedAnalysisResult example_advanced_frames example_metadata 1 of
      Inl e \<Rightarrow> False
    | Inr r \<Rightarrow>
        adv_positionHeatmap (adv_playerStats r) =
            (replicate 10 (replicate 10 0))[5 := (replicate 10 0)[5 := 2]]
        \<and> adv_courtCoverage r = Fin 75)
   \<and> length (filter (\<lambda>cell. cell \<noteq> 0)
        (concat ((replicate 10 (replicate 10 0))[5 := (replicate 10 (0::nat))[5 := 2]]))) = 1
   \<and> (case generateAnalysisResult example_frames example_metadata 1 of
        Inl e \<Rightarrow> False
      | Inr r \<Rightarrow>
          positionHeatmap (playerStats r) =
            (replicate 10 (replicate 10 0))[5 := (replicate 10 0)[5 := 3]]
          \<and> courtCoverage r = Fin 1)"
  using example_advanced_result example_cells_2 example_coverage by (intro conjI)

text \<open>
  Whatever the frames are, the coverage that \<open>generateAdvancedAnalysisResult\<close> reports
  is the constant 75.
\<close>

theorem advanced_coverage_any_frames:
  "generateAdvancedAnalysisResult frames metadata pixelsToMeters = Inr r
   \<Longrightarrow> adv_courtCoverage r = Fin 75"
  by (auto simp: generateAdvancedAnalysisResult_def Let_def split: sum.splits)

text \<open>The frames of the example.\<close>

theorem advanced_coverage_any_frames_witness:
  "\<exists>r. generateAdvancedAnalysisResult example_advanced_frames example_metadata 1 = Inr r
       \<and> adv_courtCoverage r = Fin 75"
proof (cases "generateAdvancedAnalysisResult example_advanced_frames example_metadata 1")
  case (Inl e)
  with example_advanced_result show ?thesis by simp
next
  case (Inr r)
  with advanced_coverage_any_frames[OF Inr] show ?thesis by simp
qed

text \<open>
  A ball above the image makes \<open>generateAdvancedAnalysisResult\<close> throw: the row index
  of the ball's heatmap is \<open>-1\<close>, and \<open>grid[-1]\<close> is \<open>undefined\<close>.
\<close>

theorem ball_above_image:
  "generateAdvancedAnalysisResult ball_above_frames example_metadata 1 = Inl TypeError"
  by (simp add: generateAdvancedAnalysisResult_def player_ids_def ball_above_frames_def
      ball_positions_def example_box_def example_metadata_def createHeatmap_def
      createHeatmap_step_def array_index_def Let_def)

text \<open>The three frames of the example.\<close>

theorem heatmap_is_grid_witness:
  "\<exists>r. generateAnalysisResult example_frames example_metadata 1 = Inr r
       \<and> length (concat (positionHeatmap (playerStats r))) = 100"
proof (cases "generateAnalysisResult example_frames example_metadata 1")
  case (Inl e)
  with example_coverage show ?thesis by simp
next
  case (Inr r)
  with heatmap_is_grid[OF Inr] show ?thesis by simp
qed

end
